theory Spec2Isabelle
  imports Complex_Main "HOL-Library.Word"
begin

section \<open>Python floats\<close>

text \<open>
  The ramp computation of \<^verbatim>\<open>screengamma.py\<close> is written in Python floats, that is IEEE 754
  binary64 numbers. A finite double is a real number, and every arithmetic operator returns
  the double nearest to the exact result (ties to the even mantissa). \<open>fl\<close> is that rounding:
  53 bits of precision, least normal exponent \<open>-1022\<close>, so that the spacing of doubles
  around \<open>x\<close> is \<open>2 ^ (e - 52)\<close> with \<open>e = max (-1022) \<lfloor>log\<^sub>2 \<bar>x\<bar>\<rfloor>\<close> (the subnormal
  range shares the spacing of the least normal binade).

  What is not modelled: infinities and NaN. The parameters range over all reals, which
  includes every finite double; overflow to infinity is not represented, and does not
  occur in the ramp computation: for brightness and contrast no larger than the largest
  double \<open>float_max\<close>, the exact result of every operation of the loop body is within
  \<open>float_max\<close> (lemma \<open>ramp_no_overflow\<close>).
\<close>

definition float_exponent :: "real \<Rightarrow> int" where
  "float_exponent x = max (- 1022) \<lfloor>log 2 \<bar>x\<bar>\<rfloor>"

definition float_quantum :: "real \<Rightarrow> real" where
  "float_quantum x = 2 powr real_of_int (float_exponent x - 52)"

definition round_half_even :: "real \<Rightarrow> int" where
  "round_half_even x =
     (let f = \<lfloor>x\<rfloor> in
      if x - of_int f < 1 / 2 then f
      else if 1 / 2 < x - of_int f then f + 1
      else if even f then f else f + 1)"

definition fl :: "real \<Rightarrow> real" where
  "fl x = (if x = 0 then 0 else of_int (round_half_even (x / float_quantum x)) * float_quantum x)"

definition float_max :: real where
  "float_max = (2 ^ 53 - 1) * 2 ^ 971"

datatype py_error = ZeroDivisionError | TclError | KeyError | TypeError

text \<open>\<^verbatim>\<open>x / y\<close> on floats raises \<^verbatim>\<open>ZeroDivisionError\<close> for a zero divisor.\<close>

definition py_truediv :: "real \<Rightarrow> real \<Rightarrow> py_error + real" where
  "py_truediv x y = (if y = 0 then Inl ZeroDivisionError else Inr (fl (x / y)))"

text \<open>
  \<^verbatim>\<open>x ** y\<close> for a base \<open>x \<ge> 0\<close> (the only bases the ramp uses are \<^verbatim>\<open>i / 255.0\<close>).
  The interpreter answers three cases itself, in this order: \<^verbatim>\<open>x ** 0.0\<close> is \<open>1.0\<close>;
  \<^verbatim>\<open>0.0 ** y\<close> raises for negative \<open>y\<close> and is \<open>0.0\<close> otherwise; \<^verbatim>\<open>1.0 ** y\<close> is \<open>1.0\<close>.
  Everything else goes to the \<^verbatim>\<open>pow\<close> of the platform's C library. IEEE 754 does not fix
  the last bit of its inexact results and libraries differ there, so that function is a
  parameter \<open>pw\<close> of the model, about which nothing is assumed, except that the
  exponent \<open>1.0\<close> returns the base unchanged, as the libraries do.
\<close>

type_synonym libm_pow = "real \<Rightarrow> real \<Rightarrow> real"

definition py_pow :: "libm_pow \<Rightarrow> real \<Rightarrow> real \<Rightarrow> py_error + real" where
  "py_pow pw x y =
     (if y = 0 then Inr 1
      else if x = 0 then (if y < 0 then Inl ZeroDivisionError else Inr 0)
      else if x = 1 then Inr 1
      else if y = 1 then Inr x
      else Inr (pw x y))"

definition py_add :: "real \<Rightarrow> real \<Rightarrow> real" where
  "py_add x y = fl (x + y)"

definition py_sub :: "real \<Rightarrow> real \<Rightarrow> real" where
  "py_sub x y = fl (x - y)"

definition py_mul :: "real \<Rightarrow> real \<Rightarrow> real" where
  "py_mul x y = fl (x * y)"

text \<open>\<^verbatim>\<open>int(x)\<close> truncates toward zero.\<close>

definition py_int :: "real \<Rightarrow> int" where
  "py_int x = (if 0 \<le> x then \<lfloor>x\<rfloor> else \<lceil>x\<rceil>)"

text \<open>\<^verbatim>\<open>wintypes.USHORT(v)\<close> is a \<^verbatim>\<open>c_ushort\<close>: it keeps the low 16 bits of \<open>v\<close>.\<close>

definition USHORT :: "int \<Rightarrow> 16 word" where
  "USHORT v = word_of_int v"

section \<open>The gamma ramp structure\<close>

definition GAMMA_RAMP_SIZE :: nat where
  "GAMMA_RAMP_SIZE = 256"

text \<open>
  \<^verbatim>\<open>wintypes.USHORT * GAMMA_RAMP_SIZE\<close>: an array of exactly 256 unsigned 16-bit values. The
  loop of the source only indexes it below 256; \<open>array_set\<close> beyond that leaves the array
  as it is (ctypes would raise \<^verbatim>\<open>IndexError\<close>).
\<close>

typedef ushort_array = "{xs :: 16 word list. length xs = 256}"
  by (rule exI[of _ "replicate 256 0"]) simp

definition array_new :: ushort_array where
  "array_new = Abs_ushort_array (replicate 256 0)"

definition array_get :: "ushort_array \<Rightarrow> nat \<Rightarrow> 16 word" where
  "array_get a i = Rep_ushort_array a ! i"

definition array_set :: "ushort_array \<Rightarrow> nat \<Rightarrow> 16 word \<Rightarrow> ushort_array" where
  "array_set a i v = Abs_ushort_array ((Rep_ushort_array a)[i := v])"

record GammaRamp =
  red :: ushort_array
  green :: ushort_array
  blue :: ushort_array

text \<open>\<^verbatim>\<open>GammaRamp()\<close>: a ctypes structure is zero-initialised.\<close>

definition GammaRamp_new :: GammaRamp where
  "GammaRamp_new = \<lparr>red = array_new, green = array_new, blue = array_new\<rparr>"

section \<open>The ramp computation\<close>

text \<open>
  The body of the loop of \<^verbatim>\<open>set_gamma_ramp_all_screens\<close>, up to the second clamp
  (\<open>ramp_final\<close>) and up to the conversion to an integer (\<open>ramp_value\<close>). The literals
  \<^verbatim>\<open>0.1\<close> and \<^verbatim>\<open>0.3\<close> are the doubles nearest to one tenth and three tenths; \<^verbatim>\<open>0.5\<close>,
  \<^verbatim>\<open>1.0\<close>, \<^verbatim>\<open>255.0\<close> and \<^verbatim>\<open>65535\<close> are exact.
\<close>

definition ramp_final :: "libm_pow \<Rightarrow> real \<Rightarrow> real \<Rightarrow> real \<Rightarrow> nat \<Rightarrow> py_error + real" where
  "ramp_final pw gamma brightness contrast i =
     (case py_truediv (real i) 255 of Inl e \<Rightarrow> Inl e | Inr normalized \<Rightarrow>
      case py_truediv 1 (max gamma (fl (1 / 10))) of Inl e \<Rightarrow> Inl e | Inr expo \<Rightarrow>
      case py_pow pw normalized expo of Inl e \<Rightarrow> Inl e | Inr gamma_corrected \<Rightarrow>
        let val = py_add gamma_corrected (py_mul brightness (fl (3 / 10)));
            val = max 0 (min 1 val);
            val = py_add (py_mul (py_sub val (1 / 2)) contrast) (1 / 2);
            val = max 0 (min 1 val)
        in Inr val)"

definition ramp_value :: "libm_pow \<Rightarrow> real \<Rightarrow> real \<Rightarrow> real \<Rightarrow> nat \<Rightarrow> py_error + int" where
  "ramp_value pw gamma brightness contrast i =
     (case ramp_final pw gamma brightness contrast i of Inl e \<Rightarrow> Inl e
      | Inr val \<Rightarrow> Inr (py_int (py_mul val 65535)))"

text \<open>
  The loop over \<^verbatim>\<open>range(GAMMA_RAMP_SIZE)\<close>, on the ramp object it mutates. An exception
  leaves the loop with the entries written so far.
\<close>

fun ramp_loop :: "libm_pow \<Rightarrow> real \<Rightarrow> real \<Rightarrow> real \<Rightarrow> nat list \<Rightarrow> GammaRamp \<Rightarrow> py_error option \<times> GammaRamp" where
  "ramp_loop pw gamma brightness contrast [] original = (None, original)"
| "ramp_loop pw gamma brightness contrast (i # is) original =
     (case ramp_value pw gamma brightness contrast i of
        Inl e \<Rightarrow> (Some e, original)
      | Inr val_16bit \<Rightarrow>
          ramp_loop pw gamma brightness contrast is
            (original\<lparr>red := array_set (red original) i (USHORT val_16bit),
                      green := array_set (green original) i (USHORT val_16bit),
                      blue := array_set (blue original) i (USHORT val_16bit)\<rparr>))"

section \<open>The display driver and the Python heap\<close>

text \<open>
  \<^verbatim>\<open>GammaRamp\<close> instances are mutable objects: the GUI keeps a reference to the one it read
  at startup, and \<^verbatim>\<open>set_gamma_ramp_all_screens\<close> fills another one in place. Objects live in
  a heap, a reference is an index into it, and a new object is appended. The only
  references the program holds are the ones \<^verbatim>\<open>get_gamma_ramp\<close> returned, so \<open>heap w ! a\<close>
  is always the object that \<open>a\<close> refers to.

  The world outside the program: the hardware lookup table \<open>hw_ramp\<close> of the display,
  whether \<^verbatim>\<open>GetDeviceGammaRamp\<close> succeeds, which ramps \<^verbatim>\<open>SetDeviceGammaRamp\<close> accepts, the
  configuration file and whether it can be written. \<open>trace\<close> lists the calls made to the
  driver and to the user interface, in order. \<^verbatim>\<open>GetDC\<close> and \<^verbatim>\<open>ReleaseDC\<close> have no part in
  it. A failed \<^verbatim>\<open>GetDeviceGammaRamp\<close> returns \<^verbatim>\<open>FALSE\<close>; what it leaves in the caller's
  buffer is up to the driver, \<open>failed_read\<close> (the identity for a driver that does not
  touch the buffer). A refused \<^verbatim>\<open>SetDeviceGammaRamp\<close> returns \<^verbatim>\<open>FALSE\<close> and leaves the
  display as it is. Nothing but the program changes the world.

  \<^verbatim>\<open>json.load\<close> returns a dictionary for a JSON object and something else (a list, a
  string, a number, a boolean, \<^verbatim>\<open>None\<close>) for any other document; subscripting the latter
  with a string raises \<^verbatim>\<open>TypeError\<close>. The values of an object are classified by what a
  \<^verbatim>\<open>DoubleVar\<close> makes of them.
\<close>

type_synonym addr = nat

datatype tkval = TkDouble real | TkOther

datatype json = JObject "string \<rightharpoonup> tkval" | JOther

type_synonym config = json

datatype json_file = Missing | Unparsable | Parsed config

datatype io =
  GetRamp addr | SetRamp GammaRamp | CreateWindow | WriteConfig config | ShowWarning | ShowError

record world =
  hw_ramp :: GammaRamp
  read_ok :: bool
  failed_read :: "GammaRamp \<Rightarrow> GammaRamp"
  write_ok :: "GammaRamp \<Rightarrow> bool"
  heap :: "GammaRamp list"
  trace :: "io list"
  config_file :: json_file
  file_writable :: bool

definition GetDeviceGammaRamp :: "addr \<Rightarrow> world \<Rightarrow> bool \<times> world" where
  "GetDeviceGammaRamp a w =
     (if read_ok w
      then (True, w\<lparr>heap := (heap w)[a := hw_ramp w], trace := trace w @ [GetRamp a]\<rparr>)
      else (False, w\<lparr>heap := (heap w)[a := failed_read w (heap w ! a)], trace := trace w @ [GetRamp a]\<rparr>))"

definition SetDeviceGammaRamp :: "addr \<Rightarrow> world \<Rightarrow> bool \<times> world" where
  "SetDeviceGammaRamp a w =
     (let ramp = heap w ! a in
      if write_ok w ramp
      then (True, w\<lparr>hw_ramp := ramp, trace := trace w @ [SetRamp ramp]\<rparr>)
      else (False, w\<lparr>trace := trace w @ [SetRamp ramp]\<rparr>))"

text \<open>\<^verbatim>\<open>get_gamma_ramp\<close> drops the result of \<^verbatim>\<open>GetDeviceGammaRamp\<close> and returns the buffer.\<close>

definition get_gamma_ramp :: "world \<Rightarrow> addr \<times> world" where
  "get_gamma_ramp w =
     (let ramp = length (heap w);
          w1 = w\<lparr>heap := heap w @ [GammaRamp_new]\<rparr>;
          (ok, w2) = GetDeviceGammaRamp ramp w1
      in (ramp, w2))"

definition set_gamma_ramp :: "addr \<Rightarrow> world \<Rightarrow> bool \<times> world" where
  "set_gamma_ramp ramp w = SetDeviceGammaRamp ramp w"

definition set_gamma_ramp_all_screens ::
    "libm_pow \<Rightarrow> real \<Rightarrow> real \<Rightarrow> real \<Rightarrow> world \<Rightarrow> (py_error + bool) \<times> world" where
  "set_gamma_ramp_all_screens pw gamma brightness contrast w =
     (let (original, w1) = get_gamma_ramp w;
          (err, ramp) = ramp_loop pw gamma brightness contrast [0..<GAMMA_RAMP_SIZE] (heap w1 ! original);
          w2 = w1\<lparr>heap := (heap w1)[original := ramp]\<rparr>
      in case err of
           Some e \<Rightarrow> (Inl e, w2)
         | None \<Rightarrow> (let (success, w3) = set_gamma_ramp original w2 in (Inr success, w3)))"

text \<open>The function \<^verbatim>\<open>restore\<close> that \<^verbatim>\<open>backup_and_restore\<close> registers with \<^verbatim>\<open>atexit\<close>.\<close>

definition backup_and_restore_restore :: "addr \<Rightarrow> world \<Rightarrow> world" where
  "backup_and_restore_restore ramp w = snd (set_gamma_ramp ramp w)"

section \<open>The control panel\<close>

text \<open>
  The fields of \<^verbatim>\<open>ScreenGammaGUI\<close> that the gamma logic reads or writes. A Tk variable
  holds either something that reads back as a double or something that does not, in which
  case \<^verbatim>\<open>DoubleVar.get\<close> raises. \<open>status\<close> is \<open>None\<close> while the object has no \<^verbatim>\<open>status\<close>
  attribute (the \<^verbatim>\<open>hasattr\<close> guards). Widgets, the tray icon and window visibility are left
  out; \<^verbatim>\<open>root.after(0, f)\<close> is taken to run \<open>f\<close> next.
\<close>

datatype status_text =
  Ready | Live real real real | UpdateFailed py_error | ConfigSaved | ConfigLoaded | ResetToDefault

record gui =
  original_ramp :: addr
  gamma_var :: tkval
  brightness_var :: tkval
  contrast_var :: tkval
  config :: config
  status :: "status_text option"

definition DoubleVar_get :: "tkval \<Rightarrow> py_error + real" where
  "DoubleVar_get v = (case v of TkDouble x \<Rightarrow> Inr x | TkOther \<Rightarrow> Inl TclError)"

definition set_status :: "status_text \<Rightarrow> gui \<Rightarrow> gui" where
  "set_status t s = (case status s of None \<Rightarrow> s | Some old \<Rightarrow> s\<lparr>status := Some t\<rparr>)"

text \<open>\<^verbatim>\<open>_restore_gamma\<close>: the result of \<^verbatim>\<open>set_gamma_ramp\<close> is not looked at.\<close>

definition restore_gamma :: "gui \<Rightarrow> world \<Rightarrow> world" where
  "restore_gamma s w = snd (set_gamma_ramp (original_ramp s) w)"

definition update_gamma :: "libm_pow \<Rightarrow> gui \<Rightarrow> world \<Rightarrow> gui \<times> world" where
  "update_gamma pw s w =
     (case DoubleVar_get (gamma_var s) of Inl e \<Rightarrow> (set_status (UpdateFailed e) s, w) | Inr gamma \<Rightarrow>
      case DoubleVar_get (brightness_var s) of Inl e \<Rightarrow> (set_status (UpdateFailed e) s, w) | Inr brightness \<Rightarrow>
      case DoubleVar_get (contrast_var s) of Inl e \<Rightarrow> (set_status (UpdateFailed e) s, w) | Inr contrast \<Rightarrow>
        (case set_gamma_ramp_all_screens pw gamma brightness contrast w of
           (Inl e, w1) \<Rightarrow> (set_status (UpdateFailed e) s, w1)
         | (Inr success, w1) \<Rightarrow> (set_status (Live gamma brightness contrast) s, w1)))"

definition default_config :: config where
  "default_config =
     JObject [''gamma'' \<mapsto> TkDouble 1, ''brightness'' \<mapsto> TkDouble 0, ''contrast'' \<mapsto> TkDouble 1]"

definition load_config :: "world \<Rightarrow> config \<times> world" where
  "load_config w =
     (case config_file w of
        Missing \<Rightarrow> (default_config, w)
      | Unparsable \<Rightarrow> (default_config, w\<lparr>trace := trace w @ [ShowWarning]\<rparr>)
      | Parsed c \<Rightarrow> (c, w))"

definition save_config :: "gui \<Rightarrow> world \<Rightarrow> world" where
  "save_config s w =
     (if file_writable w
      then w\<lparr>config_file := Parsed (config s), trace := trace w @ [WriteConfig (config s)]\<rparr>
      else w\<lparr>trace := trace w @ [ShowError]\<rparr>)"

definition save_to_config :: "gui \<Rightarrow> world \<Rightarrow> py_error option \<times> gui \<times> world" where
  "save_to_config s w =
     (case DoubleVar_get (gamma_var s) of Inl e \<Rightarrow> (Some e, s, w) | Inr gamma \<Rightarrow>
      case DoubleVar_get (brightness_var s) of Inl e \<Rightarrow> (Some e, s, w) | Inr brightness \<Rightarrow>
      case DoubleVar_get (contrast_var s) of Inl e \<Rightarrow> (Some e, s, w) | Inr contrast \<Rightarrow>
        (let s1 = s\<lparr>config := JObject [''gamma'' \<mapsto> TkDouble gamma, ''brightness'' \<mapsto> TkDouble brightness,
                                         ''contrast'' \<mapsto> TkDouble contrast]\<rparr>;
             w1 = save_config s1 w
         in (None, set_status ConfigSaved s1, w1)))"

text \<open>
  \<^verbatim>\<open>self.config[key]\<close> raises \<^verbatim>\<open>KeyError\<close> when a dictionary has no such key, and
  \<^verbatim>\<open>TypeError\<close> when \<^verbatim>\<open>self.config\<close> is not a dictionary.
\<close>

definition config_getitem :: "config \<Rightarrow> string \<Rightarrow> py_error + tkval" where
  "config_getitem c key =
     (case c of
        JOther \<Rightarrow> Inl TypeError
      | JObject d \<Rightarrow> (case d key of None \<Rightarrow> Inl KeyError | Some v \<Rightarrow> Inr v))"

definition apply_config :: "gui \<Rightarrow> py_error option \<times> gui" where
  "apply_config s =
     (case config_getitem (config s) ''gamma'' of Inl e \<Rightarrow> (Some e, s) | Inr g \<Rightarrow>
      case config_getitem (config s) ''brightness'' of Inl e \<Rightarrow> (Some e, s\<lparr>gamma_var := g\<rparr>) | Inr b \<Rightarrow>
      case config_getitem (config s) ''contrast'' of
        Inl e \<Rightarrow> (Some e, s\<lparr>gamma_var := g, brightness_var := b\<rparr>)
      | Inr c \<Rightarrow> (None, s\<lparr>gamma_var := g, brightness_var := b, contrast_var := c\<rparr>))"

definition load_from_config :: "libm_pow \<Rightarrow> gui \<Rightarrow> world \<Rightarrow> py_error option \<times> gui \<times> world" where
  "load_from_config pw s w =
     (case apply_config s of
        (Some e, s1) \<Rightarrow> (Some e, s1, w)
      | (None, s1) \<Rightarrow> (let (s2, w1) = update_gamma pw s1 w in (None, set_status ConfigLoaded s2, w1)))"

datatype var = Gamma | Brightness | Contrast

definition var_get :: "var \<Rightarrow> gui \<Rightarrow> tkval" where
  "var_get v s = (case v of Gamma \<Rightarrow> gamma_var s | Brightness \<Rightarrow> brightness_var s | Contrast \<Rightarrow> contrast_var s)"

definition var_set :: "var \<Rightarrow> tkval \<Rightarrow> gui \<Rightarrow> gui" where
  "var_set v x s =
     (case v of Gamma \<Rightarrow> s\<lparr>gamma_var := x\<rparr> | Brightness \<Rightarrow> s\<lparr>brightness_var := x\<rparr>
      | Contrast \<Rightarrow> s\<lparr>contrast_var := x\<rparr>)"

text \<open>The \<^verbatim>\<open>from_val\<close> and \<^verbatim>\<open>to_val\<close> of \<^verbatim>\<open>sliders_config\<close>.\<close>

definition slider_range :: "var \<Rightarrow> real \<times> real" where
  "slider_range v =
     (case v of Gamma \<Rightarrow> (fl (3 / 10), 4) | Brightness \<Rightarrow> (- 1, 1) | Contrast \<Rightarrow> (fl (1 / 10), 3))"

definition adjust_value ::
    "libm_pow \<Rightarrow> var \<Rightarrow> real \<Rightarrow> real \<Rightarrow> real \<Rightarrow> gui \<Rightarrow> world \<Rightarrow> py_error option \<times> gui \<times> world" where
  "adjust_value pw v delta min_val max_val s w =
     (case DoubleVar_get (var_get v s) of Inl e \<Rightarrow> (Some e, s, w) | Inr x \<Rightarrow>
        (let value = py_add x delta;
             value = max min_val (min max_val value);
             (s1, w1) = update_gamma pw (var_set v (TkDouble value) s) w
         in (None, s1, w1)))"

definition reset :: "libm_pow \<Rightarrow> gui \<Rightarrow> world \<Rightarrow> gui \<times> world" where
  "reset pw s w =
     (let (s1, w1) = update_gamma pw (s\<lparr>gamma_var := TkDouble 1, brightness_var := TkDouble 0,
                                       contrast_var := TkDouble 1\<rparr>) w
      in (set_status ResetToDefault s1, w1))"

text \<open>
  \<^verbatim>\<open>quit_app\<close>: an exception of \<^verbatim>\<open>save_to_config\<close> leaves the method before the restore
  and before \<^verbatim>\<open>root.quit()\<close>.
\<close>

definition quit_app :: "gui \<Rightarrow> world \<Rightarrow> py_error option \<times> gui \<times> world" where
  "quit_app s w =
     (case save_to_config s w of
        (Some e, s1, w1) \<Rightarrow> (Some e, s1, w1)
      | (None, s1, w1) \<Rightarrow> (None, s1, restore_gamma s1 w1))"

definition signal_handler :: "gui \<Rightarrow> world \<Rightarrow> world" where
  "signal_handler s w = restore_gamma s w"

definition crash_handler :: "gui \<Rightarrow> world \<Rightarrow> world" where
  "crash_handler s w = restore_gamma s w"

definition atexit_restore :: "gui \<Rightarrow> world \<Rightarrow> world" where
  "atexit_restore s w = restore_gamma s w"

section \<open>The life of the process\<close>

text \<open>
  \<^verbatim>\<open>ScreenGammaGUI.__init__\<close>: the ramp is read first, the exit hooks are installed, the
  window is created, the configuration is loaded and applied. An exception leaves the
  constructor with the object as far as it was built.
\<close>

definition ScreenGammaGUI_init :: "libm_pow \<Rightarrow> world \<Rightarrow> py_error option \<times> gui \<times> world" where
  "ScreenGammaGUI_init pw w =
     (let (original, w1) = get_gamma_ramp w;
          w2 = w1\<lparr>trace := trace w1 @ [CreateWindow]\<rparr>;
          (cfg, w3) = load_config w2;
          s = \<lparr>original_ramp = original, gamma_var = TkDouble 1, brightness_var = TkDouble 0,
               contrast_var = TkDouble 1, config = cfg, status = Some Ready\<rparr>
      in case apply_config s of
           (Some e, s1) \<Rightarrow> (Some e, s1, w3)
         | (None, s1) \<Rightarrow> (let (s2, w4) = update_gamma pw s1 w3 in (None, s2, w4)))"

text \<open>
  What the user and the system can do to the running program. A callback that raises is
  reported by Tk and the main loop goes on. The signal handler restores and raises
  \<^verbatim>\<open>SystemExit\<close>, which leaves the main loop, as does any other exception that reaches
  \<^verbatim>\<open>mainloop\<close>; \<^verbatim>\<open>quit_app\<close> ends it with \<^verbatim>\<open>root.quit()\<close>.
\<close>

datatype event =
  ScaleMoved var real | PlusClicked var | MinusClicked var | ResetClicked | SaveClicked | LoadClicked
  | WindowClosed | ShowWindow | QuitClicked | SignalReceived | MainloopError

datatype exit = StillRunning | Returned | SystemExit | Raised

definition callback :: "libm_pow \<Rightarrow> event \<Rightarrow> gui \<Rightarrow> world \<Rightarrow> gui \<times> world" where
  "callback pw e s w =
     (case e of
        ScaleMoved v x \<Rightarrow> update_gamma pw (var_set v (TkDouble x) s) w
      | PlusClicked v \<Rightarrow>
          (let (err, s1, w1) = adjust_value pw v (fl (1 / 10)) (fst (slider_range v)) (snd (slider_range v)) s w
           in (s1, w1))
      | MinusClicked v \<Rightarrow>
          (let (err, s1, w1) = adjust_value pw v (- fl (1 / 10)) (fst (slider_range v)) (snd (slider_range v)) s w
           in (s1, w1))
      | ResetClicked \<Rightarrow> reset pw s w
      | SaveClicked \<Rightarrow> (let (err, s1, w1) = save_to_config s w in (s1, w1))
      | LoadClicked \<Rightarrow> (let (err, s1, w1) = load_from_config pw s w in (s1, w1))
      | _ \<Rightarrow> (s, w))"

fun mainloop :: "libm_pow \<Rightarrow> event list \<Rightarrow> gui \<Rightarrow> world \<Rightarrow> exit \<times> gui \<times> world" where
  "mainloop pw [] s w = (StillRunning, s, w)"
| "mainloop pw (QuitClicked # es) s w =
     (case quit_app s w of
        (Some e, s1, w1) \<Rightarrow> mainloop pw es s1 w1
      | (None, s1, w1) \<Rightarrow> (Returned, s1, w1))"
| "mainloop pw (SignalReceived # es) s w = (SystemExit, s, signal_handler s w)"
| "mainloop pw (MainloopError # es) s w = (Raised, s, w)"
| "mainloop pw (e # es) s w = (let (s1, w1) = callback pw e s w in mainloop pw es s1 w1)"

text \<open>
  \<^verbatim>\<open>run\<close>: the \<^verbatim>\<open>except Exception\<close> clause restores and raises again, the \<^verbatim>\<open>finally\<close>
  clause restores on every way out.
\<close>

definition run :: "libm_pow \<Rightarrow> event list \<Rightarrow> gui \<Rightarrow> world \<Rightarrow> exit \<times> gui \<times> world" where
  "run pw es s w =
     (case mainloop pw es s w of
        (StillRunning, s1, w1) \<Rightarrow> (StillRunning, s1, w1)
      | (Raised, s1, w1) \<Rightarrow> (Raised, s1, restore_gamma s1 (restore_gamma s1 w1))
      | (x, s1, w1) \<Rightarrow> (x, s1, restore_gamma s1 w1))"

text \<open>
  The interpreter runs the \<^verbatim>\<open>atexit\<close> functions last registered first:
  \<^verbatim>\<open>_atexit_restore\<close>, then the \<^verbatim>\<open>restore\<close> of \<^verbatim>\<open>backup_and_restore\<close>.
\<close>

definition process_exit :: "gui \<Rightarrow> world \<Rightarrow> world" where
  "process_exit s w = backup_and_restore_restore (original_ramp s) (atexit_restore s w)"

text \<open>
  The script: build the GUI, run it. An exception that reaches the top level goes to
  \<^verbatim>\<open>sys.excepthook\<close>, which is \<^verbatim>\<open>_crash_handler\<close>, before the interpreter exits.
\<close>

definition main :: "libm_pow \<Rightarrow> event list \<Rightarrow> world \<Rightarrow> world" where
  "main pw es w =
     (case ScreenGammaGUI_init pw w of
        (Some e, s, w1) \<Rightarrow> process_exit s (crash_handler s w1)
      | (None, s, w1) \<Rightarrow>
          (case run pw es s w1 of
             (StillRunning, s1, w2) \<Rightarrow> w2
           | (Raised, s1, w2) \<Rightarrow> process_exit s1 (crash_handler s1 w2)
           | (x, s1, w2) \<Rightarrow> process_exit s1 w2))"

section \<open>Closed forms\<close>

text \<open>
  The ramp computation raises nothing, so its steps have closed forms without the error
  branches: the exponent \<^verbatim>\<open>1.0 / max(gamma, 0.1)\<close>, the value \<^verbatim>\<open>gamma_corrected\<close>, and the
  rest of the loop body from \<^verbatim>\<open>gamma_corrected\<close> to the second clamp. \<open>ramp_entry\<close> is the
  16-bit value stored at one index and \<open>ramp_table\<close> the ramp the loop leaves behind when
  it starts from a fresh structure. Each is proved equal to the definition above that it
  abbreviates.
\<close>

definition ramp_exponent :: "real \<Rightarrow> real" where
  "ramp_exponent gamma = fl (1 / max gamma (fl (1 / 10)))"

definition gamma_corrected_of :: "libm_pow \<Rightarrow> real \<Rightarrow> nat \<Rightarrow> real" where
  "gamma_corrected_of pw gamma i =
     (if ramp_exponent gamma = 0 then 1
      else if fl (real i / 255) = 0 then 0
      else if fl (real i / 255) = 1 then 1
      else if ramp_exponent gamma = 1 then fl (real i / 255)
      else pw (fl (real i / 255)) (ramp_exponent gamma))"

definition final_of :: "real \<Rightarrow> real \<Rightarrow> real \<Rightarrow> real" where
  "final_of gc brightness contrast =
     max 0 (min 1 (fl (fl (fl (max 0 (min 1 (fl (gc + fl (brightness * fl (3 / 10))))) - 1 / 2)
                            * contrast) + 1 / 2)))"

definition ramp_entry :: "libm_pow \<Rightarrow> real \<Rightarrow> real \<Rightarrow> real \<Rightarrow> nat \<Rightarrow> 16 word" where
  "ramp_entry pw gamma brightness contrast i =
     (case ramp_value pw gamma brightness contrast i of Inl e \<Rightarrow> 0 | Inr v \<Rightarrow> USHORT v)"

definition ramp_table :: "libm_pow \<Rightarrow> real \<Rightarrow> real \<Rightarrow> real \<Rightarrow> GammaRamp" where
  "ramp_table pw gamma brightness contrast =
     snd (ramp_loop pw gamma brightness contrast [0..<GAMMA_RAMP_SIZE] GammaRamp_new)"

text \<open>
  One state of the program comes after another: the GUI still refers to the same original
  ramp object, the heap has only grown, and the trace has only grown.
\<close>

definition extends :: "gui \<times> world \<Rightarrow> gui \<times> world \<Rightarrow> bool" where
  "extends p q =
     (original_ramp (fst q) = original_ramp (fst p)
      \<and> (\<exists>hs. heap (snd q) = heap (snd p) @ hs)
      \<and> (\<exists>ts. trace (snd q) = trace (snd p) @ ts))"

section \<open>An example world\<close>

text \<open>
  A platform whose \<^verbatim>\<open>pow\<close> is correctly rounded; a display whose hardware ramp is the
  linear one, a driver that accepts every call and does not touch the buffer of a call
  that fails, no configuration file yet; and the GUI object that \<^verbatim>\<open>ScreenGammaGUI()\<close>
  builds there. The parameters used with it are the default ones, gamma \<open>1.0\<close>, for which
  the platform's \<^verbatim>\<open>pow\<close> has no say.
\<close>

definition example_pow :: libm_pow where
  "example_pow x y = fl (x powr y)"

definition example_world :: world where
  "example_world =
     \<lparr>hw_ramp = ramp_table example_pow 1 0 1, read_ok = True, failed_read = (\<lambda>ramp. ramp),
      write_ok = (\<lambda>ramp. True), heap = [], trace = [],
      config_file = Missing, file_writable = True\<rparr>"

definition example_gui :: gui where
  "example_gui =
     \<lparr>original_ramp = 0, gamma_var = TkDouble 1, brightness_var = TkDouble 0, contrast_var = TkDouble 1,
      config = default_config, status = Some (Live 1 0 1)\<rparr>"

section \<open>Rounding to the nearest double\<close>

lemma round_half_even_of_int: "round_half_even (of_int n) = n"
  by (simp add: round_half_even_def)

lemma round_half_even_bounds:
  "x - 1 / 2 \<le> of_int (round_half_even x)" "of_int (round_half_even x) \<le> x + 1 / 2"
  unfolding round_half_even_def Let_def by (auto; linarith)+

lemma round_half_even_mono:
  assumes "x \<le> y" shows "round_half_even x \<le> round_half_even y"
proof -
  have f: "\<lfloor>x\<rfloor> \<le> \<lfloor>y\<rfloor>" using assms by (rule floor_mono)
  show ?thesis
  proof (cases "\<lfloor>x\<rfloor> = \<lfloor>y\<rfloor>")
    case True
    then show ?thesis using assms unfolding round_half_even_def Let_def by auto
  next
    case False
    then have "\<lfloor>x\<rfloor> + 1 \<le> \<lfloor>y\<rfloor>" using f by linarith
    moreover have "round_half_even x \<le> \<lfloor>x\<rfloor> + 1" unfolding round_half_even_def Let_def by auto
    moreover have "\<lfloor>y\<rfloor> \<le> round_half_even y" unfolding round_half_even_def Let_def by auto
    ultimately show ?thesis by linarith
  qed
qed

lemma round_half_even_uminus: "round_half_even (- x) = - round_half_even x"
proof (cases "x \<in> \<int>")
  case True
  then obtain n where "x = of_int n" by (auto elim: Ints_cases)
  then show ?thesis using round_half_even_of_int[of "-n"] round_half_even_of_int[of n] by simp
next
  case False
  then have fl: "\<lfloor>- x\<rfloor> = - \<lfloor>x\<rfloor> - 1"
    by (auto simp: floor_minus ceiling_altdef) (metis Ints_of_int)
  show ?thesis unfolding round_half_even_def Let_def fl by (auto; linarith?)
qed

lemma float_quantum_pos: "0 < float_quantum x"
  by (simp add: float_quantum_def)

lemma float_exponent_uminus: "float_exponent (- x) = float_exponent x"
  by (simp add: float_exponent_def)

lemma float_quantum_uminus: "float_quantum (- x) = float_quantum x"
  by (simp add: float_quantum_def float_exponent_uminus)

lemma fl_uminus: "fl (- x) = - fl x"
  using round_half_even_uminus[of "x / float_quantum x"]
  by (simp add: fl_def float_quantum_uminus)

lemma fl_0: "fl 0 = 0"
  by (simp add: fl_def)

lemma float_exponent_ge: "- 1022 \<le> float_exponent x"
  by (simp add: float_exponent_def)

lemma float_exponent_upper:
  assumes "x \<noteq> 0" shows "\<bar>x\<bar> < 2 powr real_of_int (float_exponent x + 1)"
proof -
  have pos: "0 < \<bar>x\<bar>" using assms by simp
  have "\<bar>x\<bar> < 2 powr real_of_int (\<lfloor>log 2 \<bar>x\<bar>\<rfloor> + 1)"
    using floor_log_eq_powr_iff[OF pos, of 2 "\<lfloor>log 2 \<bar>x\<bar>\<rfloor>"] by simp
  also have "\<dots> \<le> 2 powr real_of_int (float_exponent x + 1)"
    by (rule powr_mono) (simp_all add: float_exponent_def)
  finally show ?thesis .
qed

lemma float_exponent_lower:
  assumes "x \<noteq> 0" "- 1022 < float_exponent x"
  shows "2 powr real_of_int (float_exponent x) \<le> \<bar>x\<bar>"
proof -
  have pos: "0 < \<bar>x\<bar>" using assms by simp
  have e: "float_exponent x = \<lfloor>log 2 \<bar>x\<bar>\<rfloor>" using assms(2) by (simp add: float_exponent_def max_def split: if_splits)
  show ?thesis
    using floor_log_eq_powr_iff[OF pos, of 2 "\<lfloor>log 2 \<bar>x\<bar>\<rfloor>"] e by simp
qed

lemma float_exponent_mono:
  assumes "0 < \<bar>x\<bar>" "\<bar>x\<bar> \<le> \<bar>y\<bar>" shows "float_exponent x \<le> float_exponent y"
proof -
  have "log 2 \<bar>x\<bar> \<le> log 2 \<bar>y\<bar>" using assms by (intro log_mono) simp_all
  then have "\<lfloor>log 2 \<bar>x\<bar>\<rfloor> \<le> \<lfloor>log 2 \<bar>y\<bar>\<rfloor>" by (rule floor_mono)
  then show ?thesis by (simp add: float_exponent_def)
qed

lemma float_exponent_eqI:
  assumes "2 powr real_of_int e \<le> \<bar>x\<bar>" "\<bar>x\<bar> < 2 powr real_of_int (e + 1)" "- 1022 \<le> e"
  shows "float_exponent x = e"
proof -
  have pos: "0 < \<bar>x\<bar>" using assms(1) by (smt (verit) powr_gt_zero)
  have "\<lfloor>log 2 \<bar>x\<bar>\<rfloor> = e"
    using floor_log_eq_powr_iff[OF pos, of 2 e] assms by simp
  then show ?thesis using assms(3) by (simp add: float_exponent_def)
qed

lemma fl_nonneg: assumes "0 \<le> x" shows "0 \<le> fl x"
proof -
  have "0 \<le> x / float_quantum x" using assms float_quantum_pos[of x] by simp
  then have "round_half_even 0 \<le> round_half_even (x / float_quantum x)" by (rule round_half_even_mono)
  then have "0 \<le> round_half_even (x / float_quantum x)" using round_half_even_of_int[of 0] by simp
  then show ?thesis using float_quantum_pos[of x] by (simp add: fl_def)
qed

lemma fl_nonpos: "x \<le> 0 \<Longrightarrow> fl x \<le> 0"
  using fl_nonneg[of "- x"] by (simp add: fl_uminus)

lemma pow2_split: "2 powr a = 2 ^ n * 2 powr (a - real n)"
  by (simp add: powr_diff powr_realpow)

lemma fl_upper_binade:
  assumes "0 < x" shows "fl x \<le> 2 powr real_of_int (float_exponent x + 1)"
proof -
  let ?q = "float_quantum x"
  have q: "0 < ?q" by (rule float_quantum_pos)
  have "x < 2 powr real_of_int (float_exponent x + 1)" using float_exponent_upper[of x] assms by simp
  also have "2 powr real_of_int (float_exponent x + 1) = 2 ^ 53 * ?q"
    unfolding float_quantum_def using pow2_split[of "real_of_int (float_exponent x) + 1" 53] by simp
  finally have "x / ?q \<le> of_int (2 ^ 53)" using q by (simp add: field_simps)
  then have "round_half_even (x / ?q) \<le> round_half_even (of_int (2 ^ 53))" by (rule round_half_even_mono)
  then have "round_half_even (x / ?q) \<le> 2 ^ 53" by (simp only: round_half_even_of_int)
  then have "real_of_int (round_half_even (x / ?q)) \<le> 2 ^ 53" by (metis of_int_le_iff of_int_numeral of_int_power)
  then have "fl x \<le> 2 ^ 53 * ?q" using assms q by (simp add: fl_def)
  also have "2 ^ 53 * ?q = 2 powr real_of_int (float_exponent x + 1)"
    unfolding float_quantum_def using pow2_split[of "real_of_int (float_exponent x) + 1" 53] by simp
  finally show ?thesis .
qed

lemma fl_lower_binade:
  assumes "0 < x" "- 1022 < float_exponent x" shows "2 powr real_of_int (float_exponent x) \<le> fl x"
proof -
  let ?q = "float_quantum x"
  have q: "0 < ?q" by (rule float_quantum_pos)
  have eq: "2 powr real_of_int (float_exponent x) = 2 ^ 52 * ?q"
    unfolding float_quantum_def using pow2_split[of "real_of_int (float_exponent x)" 52] by simp
  have "2 powr real_of_int (float_exponent x) \<le> x" using float_exponent_lower[of x] assms by simp
  then have "of_int (2 ^ 52) \<le> x / ?q" using q by (simp add: eq field_simps)
  then have "round_half_even (of_int (2 ^ 52)) \<le> round_half_even (x / ?q)" by (rule round_half_even_mono)
  then have "2 ^ 52 \<le> round_half_even (x / ?q)" by (simp only: round_half_even_of_int)
  then have "2 ^ 52 \<le> real_of_int (round_half_even (x / ?q))" by (metis of_int_le_iff of_int_numeral of_int_power)
  then have "2 ^ 52 * ?q \<le> fl x" using assms q by (simp add: fl_def)
  then show ?thesis by (simp add: eq)
qed

lemma fl_mono_pos:
  assumes "0 < x" "x \<le> y" shows "fl x \<le> fl y"
proof -
  have y: "0 < y" using assms by simp
  have le: "float_exponent x \<le> float_exponent y" using assms by (intro float_exponent_mono) simp_all
  show ?thesis
  proof (cases "float_exponent x = float_exponent y")
    case True
    then have q: "float_quantum x = float_quantum y" by (simp add: float_quantum_def)
    have "x / float_quantum y \<le> y / float_quantum y" using assms float_quantum_pos[of y] by (simp add: divide_right_mono)
    then have "round_half_even (x / float_quantum y) \<le> round_half_even (y / float_quantum y)" by (rule round_half_even_mono)
    then show ?thesis using assms y float_quantum_pos[of y] by (simp add: fl_def q)
  next
    case False
    then have lt: "float_exponent x + 1 \<le> float_exponent y" using le by simp
    then have "- 1022 < float_exponent y" using float_exponent_ge[of x] by linarith
    then have "2 powr real_of_int (float_exponent y) \<le> fl y" using y by (intro fl_lower_binade)
    moreover have "fl x \<le> 2 powr real_of_int (float_exponent x + 1)" using assms by (intro fl_upper_binade)
    moreover have "2 powr real_of_int (float_exponent x + 1) \<le> 2 powr real_of_int (float_exponent y)"
      using lt by (intro powr_mono) simp_all
    ultimately show ?thesis by linarith
  qed
qed

lemma fl_mono: assumes "x \<le> y" shows "fl x \<le> fl y"
proof -
  consider "0 < x" | "x \<le> 0" "0 \<le> y" | "y < 0" by linarith
  then show ?thesis
  proof cases
    case 1 then show ?thesis using assms by (rule fl_mono_pos)
  next
    case 2 then show ?thesis using fl_nonpos[of x] fl_nonneg[of y] by linarith
  next
    case 3
    then have "fl (- y) \<le> fl (- x)" using assms by (intro fl_mono_pos) simp_all
    then show ?thesis by (simp add: fl_uminus)
  qed
qed

lemma float_exponent_le:
  assumes "x \<noteq> 0" "\<bar>x\<bar> < 2 powr real_of_int (K + 1)" "- 1022 \<le> K"
  shows "float_exponent x \<le> K"
proof (cases "- 1022 < float_exponent x")
  case True
  then have "2 powr real_of_int (float_exponent x) \<le> \<bar>x\<bar>" using assms(1) by (intro float_exponent_lower)
  then have "2 powr real_of_int (float_exponent x) < 2 powr real_of_int (K + 1)" using assms(2) by linarith
  then have "real_of_int (float_exponent x) < real_of_int (K + 1)" by simp
  then show ?thesis by linarith
next
  case False
  then show ?thesis using assms(3) by linarith
qed

lemma fl_exact:
  assumes x: "x = real_of_int m * 2 powr real_of_int k" and m: "\<bar>m\<bar> < 2 ^ 53" and k: "- 1074 \<le> k"
  shows "fl x = x"
proof (cases "x = 0")
  case True then show ?thesis by (simp add: fl_0)
next
  case False
  define e where "e = float_exponent x"
  have "\<bar>real_of_int m\<bar> < 2 ^ 53" using m by (metis of_int_abs of_int_less_iff of_int_numeral of_int_power)
  then have "\<bar>x\<bar> < 2 ^ 53 * 2 powr real_of_int k" unfolding x by (simp add: abs_mult)
  also have "\<dots> = 2 powr real_of_int (52 + k + 1)"
    using pow2_split[of "real_of_int (52 + k + 1)" 53] by simp
  finally have "e \<le> 52 + k" unfolding e_def using False k by (intro float_exponent_le) simp_all
  then obtain n :: nat where n: "k = e - 52 + int n" by (metis add.commute diff_le_eq zle_iff_zadd)
  have q: "float_quantum x = 2 powr real_of_int (e - 52)" by (simp add: float_quantum_def e_def)
  have "2 powr real_of_int k = 2 ^ n * 2 powr real_of_int (e - 52)"
    using pow2_split[of "real_of_int k" n] n by simp
  then have "real_of_int m * 2 powr real_of_int k = real_of_int (m * 2 ^ n) * 2 powr real_of_int (e - 52)"
    by simp
  then have xq: "x = real_of_int (m * 2 ^ n) * float_quantum x" using x q by metis
  have "x / float_quantum x = real_of_int (m * 2 ^ n)"
    using float_quantum_pos[of x] by (subst xq) simp
  then have "round_half_even (x / float_quantum x) = m * 2 ^ n" by (simp only: round_half_even_of_int)
  then have "fl x = real_of_int (m * 2 ^ n) * float_quantum x" using False by (simp add: fl_def)
  then show ?thesis using xq by simp
qed

lemma fl_error_quantum: "\<bar>fl x - x\<bar> \<le> float_quantum x / 2"
proof (cases "x = 0")
  case True then show ?thesis using float_quantum_pos[of 0] by (simp add: fl_0)
next
  case False
  let ?q = "float_quantum x"
  let ?r = "real_of_int (round_half_even (x / ?q))"
  have q: "0 < ?q" by (rule float_quantum_pos)
  have "\<bar>?r - x / ?q\<bar> \<le> 1 / 2" using round_half_even_bounds[of "x / ?q"] by linarith
  then have "\<bar>?r - x / ?q\<bar> * ?q \<le> 1 / 2 * ?q" using q by (intro mult_right_mono) simp_all
  moreover have "\<bar>?r - x / ?q\<bar> * ?q = \<bar>?r * ?q - x\<bar>"
  proof -
    have "\<bar>?r - x / ?q\<bar> * ?q = \<bar>(?r - x / ?q) * ?q\<bar>" using q by (simp add: abs_mult)
    also have "(?r - x / ?q) * ?q = ?r * ?q - x" using q by (simp add: field_simps)
    finally show ?thesis .
  qed
  ultimately show ?thesis using False by (simp add: fl_def)
qed

lemma fl_error:
  assumes "\<bar>x\<bar> \<le> 2 powr real_of_int K" "- 1022 \<le> K"
  shows "\<bar>fl x - x\<bar> \<le> 2 powr real_of_int (K - 53)"
proof (cases "x = 0")
  case True then show ?thesis by (simp add: fl_0)
next
  case False
  have "2 powr real_of_int K < 2 powr real_of_int (K + 1)" by simp
  then have "\<bar>x\<bar> < 2 powr real_of_int (K + 1)" using assms(1) by linarith
  then have e: "float_exponent x \<le> K" using False assms(2) by (intro float_exponent_le)
  have "float_quantum x / 2 = 2 powr real_of_int (float_exponent x - 53)"
    unfolding float_quantum_def using pow2_split[of "real_of_int (float_exponent x - 52)" 1] by simp
  also have "\<dots> \<le> 2 powr real_of_int (K - 53)" using e by (intro powr_mono) simp_all
  finally show ?thesis using fl_error_quantum[of x] by linarith
qed

lemma fl_1: "fl 1 = 1"
  using fl_exact[of 1 1 0] by simp

lemma fl_65535: "fl 65535 = 65535"
  using fl_exact[of 65535 65535 0] by simp

lemma fl_half: "fl (1/2) = 1/2"
  using fl_exact[of "1/2" 1 "-1"] by (simp add: powr_minus_divide)

section \<open>Arrays\<close>

lemma Rep_ushort_array_length: "length (Rep_ushort_array a) = 256"
  using Rep_ushort_array[of a] by simp

lemma array_get_set: "array_get (array_set a i v) j = (if i = j \<and> i < 256 then v else array_get a j)"
  by (cases "i = j")
    (simp_all add: array_get_def array_set_def Abs_ushort_array_inverse Rep_ushort_array_length
      list_update_beyond)

lemma array_get_new: "i < 256 \<Longrightarrow> array_get array_new i = 0"
  by (simp add: array_get_def array_new_def Abs_ushort_array_inverse)

lemma array_eqI: "(\<And>i. i < 256 \<Longrightarrow> array_get a i = array_get b i) \<Longrightarrow> a = b"
  by (simp add: array_get_def Rep_ushort_array_inject[symmetric] list_eq_iff_nth_eq Rep_ushort_array_length)

section \<open>The ramp computation raises nothing and stays in range\<close>

lemma fl_tenth_pos: "0 < fl (1 / 10)"
proof -
  have "fl (1 / 16) = 1 / 16" using fl_exact[of "1 / 16" 1 "- 4"] by (simp add: powr_minus_divide)
  moreover have "fl (1 / 16) \<le> fl (1 / 10)" by (rule fl_mono) simp
  ultimately show ?thesis by linarith
qed

lemma gamma_floor_pos: "0 < max gamma (fl (1 / 10))"
  using fl_tenth_pos by (simp add: max_def)

lemma exponent_nonneg: "0 \<le> fl (1 / max gamma (fl (1 / 10)))"
  using gamma_floor_pos[of gamma] by (intro fl_nonneg) simp

lemma ramp_final_eq:
  "ramp_final pw gamma brightness contrast i = Inr (final_of (gamma_corrected_of pw gamma i) brightness contrast)"
  using exponent_nonneg[of gamma] gamma_floor_pos[of gamma]
  by (simp add: ramp_final_def py_truediv_def py_pow_def py_add_def py_sub_def py_mul_def Let_def
      final_of_def gamma_corrected_of_def ramp_exponent_def)

lemma final_of_range: "0 \<le> final_of gc b c" "final_of gc b c \<le> 1"
  by (simp_all add: final_of_def)

lemma ramp_value_eq:
  "ramp_value pw gamma brightness contrast i =
     Inr \<lfloor>fl (final_of (gamma_corrected_of pw gamma i) brightness contrast * 65535)\<rfloor>"
proof -
  have "0 \<le> fl (final_of (gamma_corrected_of pw gamma i) brightness contrast * 65535)"
    using final_of_range(1)[of "gamma_corrected_of pw gamma i" brightness contrast] by (intro fl_nonneg) simp
  then show ?thesis by (simp add: ramp_value_def ramp_final_eq py_int_def py_mul_def)
qed

lemma scaled_range:
  assumes "0 \<le> v" "v \<le> 1"
  shows "0 \<le> \<lfloor>fl (v * 65535)\<rfloor>" "\<lfloor>fl (v * 65535)\<rfloor> \<le> 65535"
proof -
  have "0 \<le> fl (v * 65535)" using assms by (intro fl_nonneg) simp
  then show "0 \<le> \<lfloor>fl (v * 65535)\<rfloor>" by simp
  have "fl (v * 65535) \<le> fl 65535" using assms by (intro fl_mono) simp
  then have "fl (v * 65535) \<le> 65535" by (simp add: fl_65535)
  then show "\<lfloor>fl (v * 65535)\<rfloor> \<le> 65535" by (simp add: floor_le_iff)
qed

lemma ramp_value_range:
  "\<exists>v. ramp_value pw gamma brightness contrast i = Inr v \<and> 0 \<le> v \<and> v \<le> 65535"
  using scaled_range[OF final_of_range, of "gamma_corrected_of pw gamma i" brightness contrast]
  by (simp add: ramp_value_eq)

text \<open>
  What of the ramp's order depends on the platform: with a \<^verbatim>\<open>pow\<close> that is monotone in
  its base and stays within \<open>[0, 1]\<close> on bases in \<open>[0, 1]\<close>, \<^verbatim>\<open>gamma_corrected\<close> is
  monotone in the index. The rest of the loop body is monotone whatever \<^verbatim>\<open>pow\<close> does.
\<close>

lemma gamma_corrected_mono:
  assumes mono: "\<And>x x' y. 0 \<le> x \<Longrightarrow> x \<le> x' \<Longrightarrow> x' \<le> 1 \<Longrightarrow> 0 \<le> y \<Longrightarrow> pw x y \<le> pw x' y"
    and unit: "\<And>x y. 0 \<le> x \<Longrightarrow> x \<le> 1 \<Longrightarrow> 0 \<le> y \<Longrightarrow> 0 \<le> pw x y \<and> pw x y \<le> 1"
    and ij: "i \<le> j" "j \<le> 255"
  shows "gamma_corrected_of pw gamma i \<le> gamma_corrected_of pw gamma j"
proof -
  have e: "0 \<le> ramp_exponent gamma" unfolding ramp_exponent_def by (rule exponent_nonneg)
  have "real i / 255 \<le> real j / 255" using ij by simp
  then have n: "fl (real i / 255) \<le> fl (real j / 255)" by (rule fl_mono)
  have i0: "0 \<le> fl (real i / 255)" by (intro fl_nonneg) simp
  have "fl (real j / 255) \<le> fl 1" using ij by (intro fl_mono) simp
  then have j1: "fl (real j / 255) \<le> 1" by (simp add: fl_1)
  have m: "pw (fl (real i / 255)) (ramp_exponent gamma) \<le> pw (fl (real j / 255)) (ramp_exponent gamma)"
    using i0 n j1 e by (rule mono)
  have ui: "0 \<le> pw (fl (real i / 255)) (ramp_exponent gamma)" "pw (fl (real i / 255)) (ramp_exponent gamma) \<le> 1"
    using unit[of "fl (real i / 255)" "ramp_exponent gamma"] i0 n j1 e by simp_all
  have uj: "0 \<le> pw (fl (real j / 255)) (ramp_exponent gamma)" "pw (fl (real j / 255)) (ramp_exponent gamma) \<le> 1"
    using unit[of "fl (real j / 255)" "ramp_exponent gamma"] i0 n j1 e by simp_all
  show ?thesis using n i0 j1 m ui uj by (auto simp add: gamma_corrected_of_def)
qed

lemma clamp_mono: "x \<le> y \<Longrightarrow> max 0 (min 1 x) \<le> max (0::real) (min 1 y)"
  by (simp add: max_def min_def)

lemma final_of_mono:
  assumes "x \<le> y" "0 \<le> c" shows "final_of x b c \<le> final_of y b c"
proof -
  let ?s = "\<lambda>g. max 0 (min 1 (fl (g + fl (b * fl (3 / 10)))))"
  have "fl (x + fl (b * fl (3 / 10))) \<le> fl (y + fl (b * fl (3 / 10)))"
    using assms(1) by (intro fl_mono) simp
  then have 1: "?s x \<le> ?s y" by (rule clamp_mono)
  then have 2: "fl (?s x - 1 / 2) \<le> fl (?s y - 1 / 2)" by (intro fl_mono) simp
  then have "fl (?s x - 1 / 2) * c \<le> fl (?s y - 1 / 2) * c"
    using assms(2) by (rule mult_right_mono)
  then have 3: "fl (fl (?s x - 1 / 2) * c) \<le> fl (fl (?s y - 1 / 2) * c)"
    by (rule fl_mono)
  then have "fl (fl (fl (?s x - 1 / 2) * c) + 1 / 2) \<le> fl (fl (fl (?s y - 1 / 2) * c) + 1 / 2)"
    by (intro fl_mono) simp
  then show ?thesis unfolding final_of_def by (rule clamp_mono)
qed

lemma ramp_value_mono:
  assumes mono: "\<And>x x' y. 0 \<le> x \<Longrightarrow> x \<le> x' \<Longrightarrow> x' \<le> 1 \<Longrightarrow> 0 \<le> y \<Longrightarrow> pw x y \<le> pw x' y"
    and unit: "\<And>x y. 0 \<le> x \<Longrightarrow> x \<le> 1 \<Longrightarrow> 0 \<le> y \<Longrightarrow> 0 \<le> pw x y \<and> pw x y \<le> 1"
    and ij: "i \<le> j" "j \<le> 255" and c: "0 \<le> contrast"
  shows "\<exists>u v. ramp_value pw gamma brightness contrast i = Inr u
       \<and> ramp_value pw gamma brightness contrast j = Inr v \<and> u \<le> v"
proof -
  have "gamma_corrected_of pw gamma i \<le> gamma_corrected_of pw gamma j"
    using mono unit ij by (rule gamma_corrected_mono)
  then have "final_of (gamma_corrected_of pw gamma i) brightness contrast
        \<le> final_of (gamma_corrected_of pw gamma j) brightness contrast"
    using c by (rule final_of_mono)
  then have "fl (final_of (gamma_corrected_of pw gamma i) brightness contrast * 65535)
        \<le> fl (final_of (gamma_corrected_of pw gamma j) brightness contrast * 65535)"
    by (intro fl_mono) simp
  then show ?thesis by (simp add: ramp_value_eq floor_mono)
qed

section \<open>The default parameters\<close>

lemma fl_unit_error:
  assumes "\<bar>x\<bar> \<le> 1" shows "\<bar>fl x - x\<bar> \<le> 1 / 2 ^ 53"
  using fl_error[of x 0] assms by (simp add: powr_minus_divide)

lemma fl_unit_range:
  assumes "0 \<le> x" "x \<le> 1" shows "0 \<le> fl x" "fl x \<le> 1"
  using fl_nonneg[OF assms(1)] fl_mono[OF assms(2)] by (simp_all add: fl_1)

lemma fl_half_range:
  assumes "- (1 / 2) \<le> x" "x \<le> 1 / 2" shows "- (1 / 2) \<le> fl x" "fl x \<le> 1 / 2"
  using fl_mono[OF assms(1)] fl_mono[OF assms(2)] by (simp_all add: fl_half fl_uminus)

lemma fl_tenth_le_1: "fl (1 / 10) \<le> 1"
  using fl_mono[of "1 / 10" 1] by (simp add: fl_1)

lemma ramp_exponent_default: "ramp_exponent 1 = 1"
  using fl_tenth_le_1 by (simp add: ramp_exponent_def max_def fl_1)

lemma default_final_error:
  assumes "i \<le> 255"
  shows "\<bar>final_of (gamma_corrected_of pw 1 i) 0 1 - real i / 255\<bar> \<le> 6 / 2 ^ 53"
proof -
  define n where "n = fl (real i / 255)"
  define g where "g = n"
  define s where "s = fl g"
  define d where "d = fl (s - 1 / 2)"
  define m where "m = fl d"
  define a where "a = fl (m + 1 / 2)"
  have x: "0 \<le> real i / 255" "real i / 255 \<le> 1" using assms by simp_all
  have n: "0 \<le> n" "n \<le> 1" unfolding n_def using x by (rule fl_unit_range)+
  have g: "0 \<le> g" "g \<le> 1" unfolding g_def using n by simp_all
  have s: "0 \<le> s" "s \<le> 1" unfolding s_def using g by (rule fl_unit_range)+
  have d: "- (1 / 2) \<le> d" "d \<le> 1 / 2" unfolding d_def using s by (intro fl_half_range; simp)+
  have m: "- (1 / 2) \<le> m" "m \<le> 1 / 2" unfolding m_def using d by (rule fl_half_range)+
  have a: "0 \<le> a" "a \<le> 1" unfolding a_def using m by (intro fl_unit_range; simp)+
  have en: "\<bar>n - real i / 255\<bar> \<le> 1 / 2 ^ 53" unfolding n_def using x by (intro fl_unit_error) simp
  have eg: "\<bar>g - n\<bar> \<le> 1 / 2 ^ 53" unfolding g_def by simp
  have es: "\<bar>s - g\<bar> \<le> 1 / 2 ^ 53" unfolding s_def using g by (intro fl_unit_error) simp
  have ed: "\<bar>d - (s - 1 / 2)\<bar> \<le> 1 / 2 ^ 53" unfolding d_def using s by (intro fl_unit_error) simp
  have em: "\<bar>m - d\<bar> \<le> 1 / 2 ^ 53" unfolding m_def using d by (intro fl_unit_error) simp
  have ea: "\<bar>a - (m + 1 / 2)\<bar> \<le> 1 / 2 ^ 53" unfolding a_def using m by (intro fl_unit_error) simp
  have gc: "gamma_corrected_of pw 1 i = g"
    by (simp add: gamma_corrected_of_def ramp_exponent_default g_def n_def)
  have "final_of g 0 1 = a"
    using s a by (simp add: final_of_def fl_0 a_def m_def d_def s_def)
  moreover have "\<bar>a - real i / 255\<bar> \<le> 6 / 2 ^ 53" using en eg es ed em ea by linarith
  ultimately show ?thesis by (simp add: gc)
qed

lemma default_value_near:
  assumes "i \<le> 255"
  shows "\<exists>v. ramp_value pw 1 0 1 i = Inr v \<and> (v = 257 * int i \<or> v = 257 * int i - 1)"
proof -
  define f where "f = final_of (gamma_corrected_of pw 1 i) 0 1"
  have f: "0 \<le> f" "f \<le> 1" unfolding f_def by (rule final_of_range)+
  have ef: "\<bar>f - real i / 255\<bar> \<le> 6 / 2 ^ 53" unfolding f_def using assms by (rule default_final_error)
  have "\<bar>f * 65535\<bar> \<le> 2 powr real_of_int 16" using f by simp
  then have "\<bar>fl (f * 65535) - f * 65535\<bar> \<le> 2 powr real_of_int (16 - 53)" by (rule fl_error) simp
  then have ew: "\<bar>fl (f * 65535) - f * 65535\<bar> \<le> 1 / 2 ^ 37" by (simp add: powr_minus_divide)
  have "f * 65535 - 257 * real i = 65535 * (f - real i / 255)" by (simp add: algebra_simps)
  then have "\<bar>f * 65535 - 257 * real i\<bar> = 65535 * \<bar>f - real i / 255\<bar>" by (simp only: abs_mult)
  then have "\<bar>f * 65535 - 257 * real i\<bar> \<le> 65535 * (6 / 2 ^ 53)" using ef by simp
  moreover have "65535 * (6 / 2 ^ 53) \<le> (1 / 4 :: real)" "1 / 2 ^ 37 \<le> (1 / 4 :: real)" by simp_all
  ultimately have "\<bar>fl (f * 65535) - 257 * real i\<bar> < 1" using ew by linarith
  then have "real_of_int (257 * int i - 1) < fl (f * 65535)" "fl (f * 65535) < real_of_int (257 * int i + 1)"
    by simp_all
  then have "257 * int i - 1 \<le> \<lfloor>fl (f * 65535)\<rfloor>" "\<lfloor>fl (f * 65535)\<rfloor> < 257 * int i + 1"
    by (simp_all only: le_floor_iff floor_less_iff)
  then show ?thesis unfolding ramp_value_eq f_def[symmetric] by auto
qed

lemma linear_ramp_round: "round (real i / 255 * 65535) = 257 * int i"
proof -
  have "real i / 255 * 65535 = real_of_int (257 * int i)" by simp
  then show ?thesis by (simp only: round_of_int)
qed

section \<open>No operation of the loop body overflows\<close>

lemma float_max_ge: "2 \<le> float_max"
proof -
  have "(1::real) \<le> 2 ^ 971" by simp
  then have "(2 ^ 53 - 1) * (1::real) \<le> (2 ^ 53 - 1) * 2 ^ 971" by (intro mult_left_mono) simp_all
  then show ?thesis by (simp add: float_max_def)
qed

lemma fl_float_max: "fl float_max = float_max" "fl (float_max / 2) = float_max / 2"
proof -
  have "float_max = real_of_int (2 ^ 53 - 1) * 2 powr real_of_int 971"
    by (simp add: float_max_def powr_realpow[symmetric])
  then show "fl float_max = float_max" by (rule fl_exact) simp_all
  have "float_max / 2 = real_of_int (2 ^ 53 - 1) * 2 powr real_of_int 970"
    using pow2_split[of 971 1] by (simp add: float_max_def powr_realpow[symmetric])
  then show "fl (float_max / 2) = float_max / 2" by (rule fl_exact) simp_all
qed

lemma fl_bounded:
  assumes "\<bar>x\<bar> \<le> b" "fl b = b" shows "\<bar>fl x\<bar> \<le> b"
proof -
  have "fl x \<le> fl b" "fl (- b) \<le> fl x" using assms(1) by (intro fl_mono; linarith)+
  then show ?thesis using assms(2) by (simp add: fl_uminus abs_le_iff)
qed

lemma fl_three_tenths: "0 \<le> fl (3 / 10)" "fl (3 / 10) \<le> 1 / 2"
  using fl_nonneg[of "3 / 10"] fl_mono[of "3 / 10" "1 / 2"] by (simp_all add: fl_half)

lemma fl_tenth_ge: "1 / 16 \<le> fl (1 / 10)"
proof -
  have "fl (1 / 16) = 1 / 16" using fl_exact[of "1 / 16" 1 "- 4"] by (simp add: powr_minus_divide)
  then show ?thesis using fl_mono[of "1 / 16" "1 / 10"] by simp
qed

text \<open>
  The only thing asked of the platform's \<^verbatim>\<open>pow\<close> here is that its results are not huge
  (the powers it approximates lie in \<open>[0, 1]\<close>).
\<close>

lemma ramp_no_overflow:
  fixes gamma brightness contrast :: real and i :: nat
  assumes "\<bar>brightness\<bar> \<le> float_max" "\<bar>contrast\<bar> \<le> float_max" "i < GAMMA_RAMP_SIZE"
    and pw: "\<And>x y. \<bar>pw x y\<bar> \<le> float_max / 2"
  defines "gc \<equiv> gamma_corrected_of pw gamma i"
  defines "val1 \<equiv> max 0 (min 1 (fl (gc + fl (brightness * fl (3 / 10)))))"
  shows "\<bar>real i / 255\<bar> \<le> float_max"
    and "\<bar>1 / max gamma (fl (1 / 10))\<bar> \<le> float_max"
    and "\<bar>gc\<bar> \<le> float_max"
    and "\<bar>brightness * fl (3 / 10)\<bar> \<le> float_max"
    and "\<bar>gc + fl (brightness * fl (3 / 10))\<bar> \<le> float_max"
    and "\<bar>val1 - 1 / 2\<bar> \<le> float_max"
    and "\<bar>fl (val1 - 1 / 2) * contrast\<bar> \<le> float_max"
    and "\<bar>fl (fl (val1 - 1 / 2) * contrast) + 1 / 2\<bar> \<le> float_max"
    and "\<bar>final_of gc brightness contrast * 65535\<bar> \<le> float_max"
proof -
  have i: "i \<le> 255" using assms(3) by (simp add: GAMMA_RAMP_SIZE_def)
  have M: "2 \<le> float_max" by (rule float_max_ge)
  have M2: "65535 \<le> float_max"
  proof -
    have "(65535::real) \<le> (2 ^ 53 - 1) * 1" by simp
    also have "\<dots> \<le> (2 ^ 53 - 1) * 2 ^ 971" by (intro mult_left_mono) simp_all
    finally show ?thesis by (simp add: float_max_def)
  qed
  show "\<bar>real i / 255\<bar> \<le> float_max" using i M by simp
  have "1 / 16 \<le> max gamma (fl (1 / 10))" using fl_tenth_ge by (simp add: max_def)
  then have "1 / max gamma (fl (1 / 10)) \<le> 16" "0 \<le> 1 / max gamma (fl (1 / 10))"
    by (simp_all add: field_simps)
  then show "\<bar>1 / max gamma (fl (1 / 10))\<bar> \<le> float_max" using M2 by linarith
  have n: "0 \<le> fl (real i / 255)" "fl (real i / 255) \<le> 1" using i by (intro fl_unit_range; simp)+
  have g: "\<bar>gc\<bar> \<le> float_max / 2"
    unfolding gc_def using n pw[of "fl (real i / 255)" "ramp_exponent gamma"] M
    by (auto simp add: gamma_corrected_of_def)
  then show "\<bar>gc\<bar> \<le> float_max" using M by linarith
  have "\<bar>brightness * fl (3 / 10)\<bar> = \<bar>brightness\<bar> * fl (3 / 10)" using fl_three_tenths by (simp add: abs_mult)
  also have "\<dots> \<le> float_max * (1 / 2)" using assms(1) fl_three_tenths by (intro mult_mono) simp_all
  finally have b: "\<bar>brightness * fl (3 / 10)\<bar> \<le> float_max / 2" by simp
  then show "\<bar>brightness * fl (3 / 10)\<bar> \<le> float_max" using M by linarith
  have fb: "\<bar>fl (brightness * fl (3 / 10))\<bar> \<le> float_max / 2" using b fl_float_max(2) by (rule fl_bounded)
  show "\<bar>gc + fl (brightness * fl (3 / 10))\<bar> \<le> float_max" using fb g by linarith
  have v: "0 \<le> val1" "val1 \<le> 1" unfolding val1_def by simp_all
  then show "\<bar>val1 - 1 / 2\<bar> \<le> float_max" using M by linarith
  have "\<bar>val1 - 1 / 2\<bar> \<le> 1 / 2" using v by linarith
  then have d: "\<bar>fl (val1 - 1 / 2)\<bar> \<le> 1 / 2" using fl_half by (rule fl_bounded)
  have "\<bar>fl (val1 - 1 / 2) * contrast\<bar> = \<bar>fl (val1 - 1 / 2)\<bar> * \<bar>contrast\<bar>" by (simp add: abs_mult)
  also have "\<dots> \<le> (1 / 2) * float_max" using d assms(2) by (intro mult_mono) simp_all
  finally have c: "\<bar>fl (val1 - 1 / 2) * contrast\<bar> \<le> float_max / 2" by simp
  then show "\<bar>fl (val1 - 1 / 2) * contrast\<bar> \<le> float_max" using M by linarith
  have "\<bar>fl (fl (val1 - 1 / 2) * contrast)\<bar> \<le> float_max / 2" using c fl_float_max(2) by (rule fl_bounded)
  then show "\<bar>fl (fl (val1 - 1 / 2) * contrast) + 1 / 2\<bar> \<le> float_max" using M by linarith
  show "\<bar>final_of gc brightness contrast * 65535\<bar> \<le> float_max"
    using final_of_range[of gc brightness contrast] M2 by (simp add: abs_mult)
qed

section \<open>The table the loop writes\<close>

lemma ramp_value_Inr: "\<exists>v. ramp_value pw g b c i = Inr v"
  by (simp add: ramp_value_eq)

lemma ramp_loop_result:
  "\<exists>T. ramp_loop pw g b c js r = (None, T)
     \<and> (\<forall>j. array_get (red T) j = (if j \<in> set js \<and> j < 256 then ramp_entry pw g b c j else array_get (red r) j))
     \<and> (\<forall>j. array_get (green T) j = (if j \<in> set js \<and> j < 256 then ramp_entry pw g b c j else array_get (green r) j))
     \<and> (\<forall>j. array_get (blue T) j = (if j \<in> set js \<and> j < 256 then ramp_entry pw g b c j else array_get (blue r) j))"
proof (induction js arbitrary: r)
  case Nil
  show ?case by simp
next
  case (Cons i js)
  obtain v where v: "ramp_value pw g b c i = Inr v" using ramp_value_Inr by blast
  let ?r = "r\<lparr>red := array_set (red r) i (USHORT v), green := array_set (green r) i (USHORT v),
              blue := array_set (blue r) i (USHORT v)\<rparr>"
  from Cons.IH[of ?r] obtain T where T: "ramp_loop pw g b c js ?r = (None, T)"
    and R: "\<And>j. array_get (red T) j = (if j \<in> set js \<and> j < 256 then ramp_entry pw g b c j else array_get (red ?r) j)"
    and G: "\<And>j. array_get (green T) j = (if j \<in> set js \<and> j < 256 then ramp_entry pw g b c j else array_get (green ?r) j)"
    and B: "\<And>j. array_get (blue T) j = (if j \<in> set js \<and> j < 256 then ramp_entry pw g b c j else array_get (blue ?r) j)"
    by blast
  have e: "ramp_entry pw g b c i = USHORT v" by (simp add: ramp_entry_def v)
  have "ramp_loop pw g b c (i # js) r = (None, T)" using v T by simp
  moreover have "\<And>j. array_get (red T) j = (if j \<in> set (i # js) \<and> j < 256 then ramp_entry pw g b c j else array_get (red r) j)"
    using e by (auto simp add: R array_get_set)
  moreover have "\<And>j. array_get (green T) j = (if j \<in> set (i # js) \<and> j < 256 then ramp_entry pw g b c j else array_get (green r) j)"
    using e by (auto simp add: G array_get_set)
  moreover have "\<And>j. array_get (blue T) j = (if j \<in> set (i # js) \<and> j < 256 then ramp_entry pw g b c j else array_get (blue r) j)"
    using e by (auto simp add: B array_get_set)
  ultimately show ?case by blast
qed

lemma ramp_loop_full:
  "ramp_loop pw g b c [0..<GAMMA_RAMP_SIZE] r = (None, ramp_table pw g b c)"
proof -
  obtain T where T: "ramp_loop pw g b c [0..<GAMMA_RAMP_SIZE] r = (None, T)"
    and TR: "\<And>j. array_get (red T) j = (if j \<in> set [0..<GAMMA_RAMP_SIZE] \<and> j < 256 then ramp_entry pw g b c j else array_get (red r) j)"
    and TG: "\<And>j. array_get (green T) j = (if j \<in> set [0..<GAMMA_RAMP_SIZE] \<and> j < 256 then ramp_entry pw g b c j else array_get (green r) j)"
    and TB: "\<And>j. array_get (blue T) j = (if j \<in> set [0..<GAMMA_RAMP_SIZE] \<and> j < 256 then ramp_entry pw g b c j else array_get (blue r) j)"
    using ramp_loop_result[of pw g b c "[0..<GAMMA_RAMP_SIZE]" r] by blast
  obtain U where U: "ramp_loop pw g b c [0..<GAMMA_RAMP_SIZE] GammaRamp_new = (None, U)"
    and UR: "\<And>j. array_get (red U) j = (if j \<in> set [0..<GAMMA_RAMP_SIZE] \<and> j < 256 then ramp_entry pw g b c j else array_get (red GammaRamp_new) j)"
    and UG: "\<And>j. array_get (green U) j = (if j \<in> set [0..<GAMMA_RAMP_SIZE] \<and> j < 256 then ramp_entry pw g b c j else array_get (green GammaRamp_new) j)"
    and UB: "\<And>j. array_get (blue U) j = (if j \<in> set [0..<GAMMA_RAMP_SIZE] \<and> j < 256 then ramp_entry pw g b c j else array_get (blue GammaRamp_new) j)"
    using ramp_loop_result[of pw g b c "[0..<GAMMA_RAMP_SIZE]" GammaRamp_new] by blast
  have "red T = red U" by (rule array_eqI) (simp add: TR UR GAMMA_RAMP_SIZE_def)
  moreover have "green T = green U" by (rule array_eqI) (simp add: TG UG GAMMA_RAMP_SIZE_def)
  moreover have "blue T = blue U" by (rule array_eqI) (simp add: TB UB GAMMA_RAMP_SIZE_def)
  ultimately have "T = U" by simp
  then show ?thesis by (simp add: T ramp_table_def U)
qed

lemma ramp_table_entries:
  assumes "i < 256"
  shows "array_get (red (ramp_table pw g b c)) i = ramp_entry pw g b c i"
    "array_get (green (ramp_table pw g b c)) i = ramp_entry pw g b c i"
    "array_get (blue (ramp_table pw g b c)) i = ramp_entry pw g b c i"
proof -
  obtain U where U: "ramp_loop pw g b c [0..<GAMMA_RAMP_SIZE] GammaRamp_new = (None, U)"
    and UR: "\<And>j. array_get (red U) j = (if j \<in> set [0..<GAMMA_RAMP_SIZE] \<and> j < 256 then ramp_entry pw g b c j else array_get (red GammaRamp_new) j)"
    and UG: "\<And>j. array_get (green U) j = (if j \<in> set [0..<GAMMA_RAMP_SIZE] \<and> j < 256 then ramp_entry pw g b c j else array_get (green GammaRamp_new) j)"
    and UB: "\<And>j. array_get (blue U) j = (if j \<in> set [0..<GAMMA_RAMP_SIZE] \<and> j < 256 then ramp_entry pw g b c j else array_get (blue GammaRamp_new) j)"
    using ramp_loop_result[of pw g b c "[0..<GAMMA_RAMP_SIZE]" GammaRamp_new] by blast
  have "ramp_table pw g b c = U" by (simp add: ramp_table_def U)
  then show "array_get (red (ramp_table pw g b c)) i = ramp_entry pw g b c i"
    "array_get (green (ramp_table pw g b c)) i = ramp_entry pw g b c i"
    "array_get (blue (ramp_table pw g b c)) i = ramp_entry pw g b c i"
    using assms by (simp_all add: UR UG UB GAMMA_RAMP_SIZE_def)
qed

lemma uint_USHORT: "0 \<le> v \<Longrightarrow> v \<le> 65535 \<Longrightarrow> uint (USHORT v) = v"
  by (simp add: USHORT_def uint_word_of_int)

section \<open>Effects of the driver calls and of the callbacks\<close>

lemma get_gamma_ramp_eq:
  "get_gamma_ramp w =
     (length (heap w),
      w\<lparr>heap := heap w @ [if read_ok w then hw_ramp w else failed_read w GammaRamp_new],
        trace := trace w @ [GetRamp (length (heap w))]\<rparr>)"
  by (simp add: get_gamma_ramp_def GetDeviceGammaRamp_def Let_def)

lemma set_gamma_ramp_eq:
  "set_gamma_ramp a w =
     (write_ok w (heap w ! a),
      w\<lparr>hw_ramp := (if write_ok w (heap w ! a) then heap w ! a else hw_ramp w),
        trace := trace w @ [SetRamp (heap w ! a)]\<rparr>)"
  by (simp add: set_gamma_ramp_def SetDeviceGammaRamp_def Let_def)

lemma set_gamma_ramp_all_screens_eq:
  "set_gamma_ramp_all_screens pw g b c w =
     (Inr (write_ok w (ramp_table pw g b c)),
      w\<lparr>heap := heap w @ [ramp_table pw g b c],
        hw_ramp := (if write_ok w (ramp_table pw g b c) then ramp_table pw g b c else hw_ramp w),
        trace := trace w @ [GetRamp (length (heap w)), SetRamp (ramp_table pw g b c)]\<rparr>)"
  by (simp add: set_gamma_ramp_all_screens_def get_gamma_ramp_eq ramp_loop_full set_gamma_ramp_eq Let_def)

lemma restore_gamma_eq:
  "restore_gamma s w =
     w\<lparr>hw_ramp := (if write_ok w (heap w ! original_ramp s) then heap w ! original_ramp s else hw_ramp w),
       trace := trace w @ [SetRamp (heap w ! original_ramp s)]\<rparr>"
  by (simp add: restore_gamma_def set_gamma_ramp_eq)

lemma extends_refl: "extends p p"
  by (simp add: extends_def)

lemma extends_trans: "extends p q \<Longrightarrow> extends q r \<Longrightarrow> extends p r"
  by (auto simp: extends_def)

lemma extends_set_status: "extends (s, w) (s', w') \<Longrightarrow> extends (s, w) (set_status t s', w')"
  by (simp add: extends_def set_status_def split: option.splits)

lemma extends_restore: "extends (s, w) (s, restore_gamma s w)"
  by (simp add: extends_def restore_gamma_eq)

lemma extends_update_gamma: "original_ramp s' = original_ramp s \<Longrightarrow> extends (s, w) (update_gamma pw s' w)"
  by (simp add: update_gamma_def DoubleVar_get_def set_gamma_ramp_all_screens_eq extends_def set_status_def
      split: tkval.splits option.splits)

lemma extends_save_to_config: "extends (s, w) (snd (save_to_config s w))"
  by (simp add: save_to_config_def save_config_def DoubleVar_get_def extends_def set_status_def Let_def
      split: tkval.splits option.splits)

lemma apply_config_original: "original_ramp (snd (apply_config s)) = original_ramp s"
  by (simp add: apply_config_def split: sum.splits)

lemma extends_load_from_config: "extends (s, w) (snd (load_from_config pw s w))"
proof (cases "apply_config s")
  case (Pair err s1)
  have o: "original_ramp s1 = original_ramp s" using apply_config_original[of s] Pair by simp
  show ?thesis
  proof (cases err)
    case None
    obtain s2 w1 where u: "update_gamma pw s1 w = (s2, w1)" by (cases "update_gamma pw s1 w")
    have "extends (s, w) (s2, w1)" using extends_update_gamma[OF o, of w pw] u by simp
    then show ?thesis using Pair None u by (simp add: load_from_config_def extends_set_status)
  next
    case (Some e)
    then show ?thesis using Pair o by (simp add: load_from_config_def extends_def)
  qed
qed

lemma var_set_original: "original_ramp (var_set v x s) = original_ramp s"
  by (simp add: var_set_def split: var.splits)

lemma extends_adjust_value: "extends (s, w) (snd (adjust_value pw v d lo hi s w))"
proof (cases "DoubleVar_get (var_get v s)")
  case (Inl e)
  then show ?thesis by (simp add: adjust_value_def extends_refl)
next
  case (Inr x)
  let ?s = "var_set v (TkDouble (max lo (min hi (py_add x d)))) s"
  obtain s1 w1 where u: "update_gamma pw ?s w = (s1, w1)" by (cases "update_gamma pw ?s w")
  have "extends (s, w) (update_gamma pw ?s w)" by (rule extends_update_gamma) (rule var_set_original)
  then show ?thesis using Inr u by (simp add: adjust_value_def Let_def)
qed

lemma extends_reset: "extends (s, w) (reset pw s w)"
proof -
  let ?s = "s\<lparr>gamma_var := TkDouble 1, brightness_var := TkDouble 0, contrast_var := TkDouble 1\<rparr>"
  obtain s1 w1 where u: "update_gamma pw ?s w = (s1, w1)" by (cases "update_gamma pw ?s w")
  have "extends (s, w) (update_gamma pw ?s w)" by (rule extends_update_gamma) simp
  then show ?thesis using u by (simp add: reset_def extends_set_status)
qed

lemma extends_callback: "extends (s, w) (callback pw e s w)"
proof (cases e)
  case (ScaleMoved v x)
  then show ?thesis by (simp add: callback_def extends_update_gamma var_set_original)
next
  case (PlusClicked v)
  then show ?thesis
    using extends_adjust_value[of s w pw v "fl (1 / 10)" "fst (slider_range v)" "snd (slider_range v)"]
    by (auto simp add: callback_def split: prod.splits)
next
  case (MinusClicked v)
  then show ?thesis
    using extends_adjust_value[of s w pw v "- fl (1 / 10)" "fst (slider_range v)" "snd (slider_range v)"]
    by (auto simp add: callback_def split: prod.splits)
next
  case ResetClicked
  then show ?thesis by (simp add: callback_def extends_reset)
next
  case SaveClicked
  then show ?thesis using extends_save_to_config[of s w] by (auto simp add: callback_def split: prod.splits)
next
  case LoadClicked
  then show ?thesis using extends_load_from_config[of s w pw] by (auto simp add: callback_def split: prod.splits)
qed (simp_all add: callback_def extends_refl)

lemma extends_quit_app: "extends (s, w) (snd (quit_app s w))"
proof (cases "save_to_config s w")
  case (fields err s1 w1)
  have 1: "extends (s, w) (s1, w1)" using extends_save_to_config[of s w] fields by simp
  show ?thesis
  proof (cases err)
    case None
    have "extends (s1, w1) (s1, restore_gamma s1 w1)" by (rule extends_restore)
    then show ?thesis using 1 fields None by (simp add: quit_app_def) (rule extends_trans)
  next
    case (Some e)
    then show ?thesis using 1 fields by (simp add: quit_app_def)
  qed
qed

lemma extends_mainloop: "extends (s, w) (snd (mainloop pw es s w))"
proof (induction pw es s w rule: mainloop.induct)
  case (1 pw s w)
  show ?case by (simp add: extends_refl)
next
  case (2 pw es s w)
  obtain err s1 w1 where q: "quit_app s w = (err, s1, w1)" by (cases "quit_app s w")
  have 1: "extends (s, w) (s1, w1)" using extends_quit_app[of s w] q by simp
  show ?case
  proof (cases err)
    case None
    then show ?thesis using q 1 by simp
  next
    case (Some e)
    then have "extends (s1, w1) (snd (mainloop pw es s1 w1))" using "2.IH" q by simp
    then show ?thesis using q Some 1 by (simp add: extends_trans)
  qed
next
  case (3 pw es s w)
  show ?case by (simp add: signal_handler_def extends_restore)
next
  case (4 pw es s w)
  show ?case by (simp add: extends_refl)
qed (metis (no_types, lifting) extends_callback extends_trans mainloop.simps case_prod_conv surj_pair)+

section \<open>Properties of the ramp computation\<close>

lemma ramp_entry_uint:
  "\<exists>v. ramp_value pw g b c i = Inr v \<and> 0 \<le> v \<and> v \<le> 65535 \<and> uint (ramp_entry pw g b c i) = v"
proof -
  obtain v where v: "ramp_value pw g b c i = Inr v" "0 \<le> v" "v \<le> 65535"
    using ramp_value_range[of pw g b c i] by blast
  then show ?thesis by (simp add: ramp_entry_def uint_USHORT)
qed

text \<open>
  C2. For any gamma, brightness and contrast, and whatever ramp the loop starts from, the
  loop of \<^verbatim>\<open>set_gamma_ramp_all_screens\<close> ends without an exception, and at every index
  below 256 the integer \<^verbatim>\<open>val_16bit\<close> lies in \<open>[0, 65535]\<close>, is stored unchanged (the
  conversion to \<^verbatim>\<open>USHORT\<close> does not wrap), and the red, green and blue entries are equal.
\<close>

theorem ramp_in_range_and_monochrome:
  "\<exists>T. ramp_loop pw gamma brightness contrast [0..<GAMMA_RAMP_SIZE] original = (None, T)
     \<and> (\<forall>i<GAMMA_RAMP_SIZE.
           \<exists>v. ramp_value pw gamma brightness contrast i = Inr v \<and> 0 \<le> v \<and> v \<le> 65535
             \<and> uint (array_get (red T) i) = v
             \<and> array_get (green T) i = array_get (red T) i
             \<and> array_get (blue T) i = array_get (red T) i)"
proof -
  have "\<forall>i<GAMMA_RAMP_SIZE.
           \<exists>v. ramp_value pw gamma brightness contrast i = Inr v \<and> 0 \<le> v \<and> v \<le> 65535
             \<and> uint (array_get (red (ramp_table pw gamma brightness contrast)) i) = v
             \<and> array_get (green (ramp_table pw gamma brightness contrast)) i
                 = array_get (red (ramp_table pw gamma brightness contrast)) i
             \<and> array_get (blue (ramp_table pw gamma brightness contrast)) i
                 = array_get (red (ramp_table pw gamma brightness contrast)) i"
    using ramp_entry_uint[of pw gamma brightness contrast]
    by (simp add: GAMMA_RAMP_SIZE_def ramp_table_entries)
  then show ?thesis using ramp_loop_full[of pw gamma brightness contrast original] by blast
qed

theorem ramp_in_range_and_monochrome_witness:
  "(255::nat) < GAMMA_RAMP_SIZE
   \<and> (\<exists>T. ramp_loop example_pow 1 0 1 [0..<GAMMA_RAMP_SIZE] GammaRamp_new = (None, T)
        \<and> (\<exists>v. ramp_value example_pow 1 0 1 255 = Inr v \<and> 0 \<le> v \<and> v \<le> 65535
             \<and> uint (array_get (red T) 255) = v
             \<and> array_get (green T) 255 = array_get (red T) 255
             \<and> array_get (blue T) 255 = array_get (red T) 255))"
proof -
  have h: "(255::nat) < GAMMA_RAMP_SIZE" by (simp add: GAMMA_RAMP_SIZE_def)
  show ?thesis using h ramp_in_range_and_monochrome[of example_pow 1 0 1 GammaRamp_new] by blast
qed

lemma fl_quarter: "fl (1 / 4) = 1 / 4"
  using fl_exact[of "1 / 4" 1 "- 2"] by (simp add: powr_minus_divide)

lemma final_example: "final_of (gamma_corrected_of pw 1 0) 0 (1 / 2) = 1 / 4"
proof -
  have "gamma_corrected_of pw 1 0 = 0" by (simp add: gamma_corrected_of_def ramp_exponent_default fl_0)
  moreover have "fl (- (1 / 2)) = - (1 / 2)" "fl (- (1 / 4)) = - (1 / 4)"
    by (simp_all only: fl_uminus fl_half fl_quarter)
  ultimately show ?thesis by (simp add: final_of_def fl_0 fl_quarter)
qed

lemma scaled_example: "fl (65535 / 4) = 65535 / 4"
  using fl_exact[of "65535 / 4" 65535 "- 2"] by (simp add: powr_minus_divide)

text \<open>
  C3, as stated, fails. With gamma \<open>1.0\<close>, brightness \<open>0.0\<close> and contrast \<open>0.5\<close>, the
  clamped value at index 0 is \<open>0.25\<close> and \<open>0.25 * 65535 = 16383.75\<close> (every step is exact
  in doubles); rounding to nearest gives 16384, the code stores \<^verbatim>\<open>int(16383.75)\<close>, which is
  16383.
\<close>

theorem conversion_truncates_counterexample:
  "ramp_final example_pow 1 0 (1 / 2) 0 = Inr (1 / 4)
   \<and> round (py_mul (1 / 4) 65535) = 16384
   \<and> ramp_value example_pow 1 0 (1 / 2) 0 = Inr 16383"
proof -
  have "round (65535 / 4 :: real) = 16384" by (simp add: round_def)
  moreover have "\<lfloor>65535 / 4 :: real\<rfloor> = 16383" by simp
  ultimately show ?thesis
    by (simp add: ramp_final_eq ramp_value_eq final_example py_mul_def scaled_example)
qed

text \<open>
  C3, amended. For every index and all parameters the clamped value \<open>final\<close> exists and
  lies in \<open>[0, 1]\<close>, and the integer stored is the double product \<^verbatim>\<open>final * 65535\<close> truncated
  (its floor, the product being non-negative), not rounded to nearest.
\<close>

theorem conversion_truncates:
  "\<exists>final. ramp_final pw gamma brightness contrast i = Inr final \<and> 0 \<le> final \<and> final \<le> 1
     \<and> ramp_value pw gamma brightness contrast i = Inr \<lfloor>py_mul final 65535\<rfloor>"
  by (simp add: ramp_final_eq ramp_value_eq py_mul_def final_of_range)

lemma linear_ramp_round_float:
  assumes "i \<le> 255" shows "round (py_mul (fl (real i / 255)) 65535) = 257 * int i"
proof -
  define n where "n = fl (real i / 255)"
  have x: "0 \<le> real i / 255" "real i / 255 \<le> 1" using assms by simp_all
  have n: "0 \<le> n" "n \<le> 1" unfolding n_def using x by (rule fl_unit_range)+
  have en: "\<bar>n - real i / 255\<bar> \<le> 1 / 2 ^ 53" unfolding n_def using x by (intro fl_unit_error) simp
  have "\<bar>n * 65535\<bar> \<le> 2 powr real_of_int 16" using n by simp
  then have "\<bar>fl (n * 65535) - n * 65535\<bar> \<le> 2 powr real_of_int (16 - 53)" by (rule fl_error) simp
  then have ew: "\<bar>fl (n * 65535) - n * 65535\<bar> \<le> 1 / 2 ^ 37" by (simp add: powr_minus_divide)
  have "n * 65535 - 257 * real i = 65535 * (n - real i / 255)" by (simp add: algebra_simps)
  then have "\<bar>n * 65535 - 257 * real i\<bar> = 65535 * \<bar>n - real i / 255\<bar>" by (simp only: abs_mult)
  then have "\<bar>n * 65535 - 257 * real i\<bar> \<le> 65535 * (1 / 2 ^ 53)" using en by simp
  moreover have "65535 * (1 / 2 ^ 53) \<le> (1 / 8 :: real)" "1 / 2 ^ 37 \<le> (1 / 8 :: real)" by simp_all
  ultimately have "\<bar>fl (n * 65535) - 257 * real i\<bar> < 1 / 2" using ew by linarith
  moreover have "real_of_int (257 * int i) = 257 * real i" by simp
  ultimately have "real_of_int (257 * int i) > fl (n * 65535) - 1 / 2"
      "real_of_int (257 * int i) \<le> fl (n * 65535) + 1 / 2"
    by linarith+
  then have "round (fl (n * 65535)) = 257 * int i" by (rule round_unique)
  then show ?thesis by (simp add: py_mul_def n_def)
qed

lemma round_257: "round (257 * real i) = 257 * int i"
  using linear_ramp_round[of i] by simp

text \<open>
  C5. With the default parameters gamma \<open>1.0\<close>, brightness \<open>0.0\<close>, contrast \<open>1.0\<close>, the entry
  stored at every index \<open>i\<close> below 256, in each channel, is within one unit of
  \<^verbatim>\<open>round((i / 255.0) * 65535)\<close>, which is \<open>257 * i\<close> both in exact and in double
  arithmetic.
\<close>

theorem default_ramp_linear:
  assumes "i < GAMMA_RAMP_SIZE"
  shows "\<exists>T v. ramp_loop pw 1 0 1 [0..<GAMMA_RAMP_SIZE] original = (None, T)
     \<and> ramp_value pw 1 0 1 i = Inr v
     \<and> uint (array_get (red T) i) = v
     \<and> array_get (green T) i = array_get (red T) i
     \<and> array_get (blue T) i = array_get (red T) i
     \<and> round (real i / 255 * 65535) = 257 * int i
     \<and> round (py_mul (fl (real i / 255)) 65535) = 257 * int i
     \<and> \<bar>v - round (py_mul (fl (real i / 255)) 65535)\<bar> \<le> 1"
proof -
  have i: "i < 256" "i \<le> 255" using assms by (simp_all add: GAMMA_RAMP_SIZE_def)
  obtain v where v: "ramp_value pw 1 0 1 i = Inr v" "v = 257 * int i \<or> v = 257 * int i - 1"
    using default_value_near[OF i(2)] by blast
  have r: "0 \<le> v" "v \<le> 65535" using ramp_value_range[of pw 1 0 1 i] v(1) by auto
  have e: "uint (ramp_entry pw 1 0 1 i) = v" using v(1) r by (simp add: ramp_entry_def uint_USHORT)
  have d: "\<bar>v - 257 * int i\<bar> \<le> 1" using v(2) by auto
  show ?thesis
    using ramp_loop_full[of pw 1 0 1 original] v(1) e d
    by (simp add: ramp_table_entries[OF i(1)] round_257 linear_ramp_round_float[OF i(2)])
qed

theorem default_ramp_linear_witness:
  "(128 :: nat) < GAMMA_RAMP_SIZE
   \<and> (\<exists>T v. ramp_loop example_pow 1 0 1 [0..<GAMMA_RAMP_SIZE] GammaRamp_new = (None, T)
     \<and> ramp_value example_pow 1 0 1 128 = Inr v
     \<and> uint (array_get (red T) 128) = v
     \<and> array_get (green T) 128 = array_get (red T) 128
     \<and> array_get (blue T) 128 = array_get (red T) 128
     \<and> round (real 128 / 255 * 65535) = 257 * int 128
     \<and> round (py_mul (fl (real 128 / 255)) 65535) = 257 * int 128
     \<and> \<bar>v - round (py_mul (fl (real 128 / 255)) 65535)\<bar> \<le> 1)"
proof -
  have h: "(128 :: nat) < GAMMA_RAMP_SIZE" by (simp add: GAMMA_RAMP_SIZE_def)
  show ?thesis using h default_ramp_linear[OF h, of example_pow GammaRamp_new] by blast
qed

text \<open>
  C9. \<^verbatim>\<open>set_gamma_ramp_all_screens\<close> writes the same ramp in any two worlds, whatever
  their hardware ramps, heaps and driver behaviour: its driver calls are one read into a
  fresh object and one write of \<open>ramp_table pw gamma brightness contrast\<close>, and the loop
  overwrites every entry of what was read.
\<close>

theorem table_independent_of_hardware:
  "trace (snd (set_gamma_ramp_all_screens pw gamma brightness contrast w1))
     = trace w1 @ [GetRamp (length (heap w1)), SetRamp (ramp_table pw gamma brightness contrast)]
   \<and> trace (snd (set_gamma_ramp_all_screens pw gamma brightness contrast w2))
     = trace w2 @ [GetRamp (length (heap w2)), SetRamp (ramp_table pw gamma brightness contrast)]
   \<and> ramp_loop pw gamma brightness contrast [0..<GAMMA_RAMP_SIZE] (hw_ramp w1)
     = ramp_loop pw gamma brightness contrast [0..<GAMMA_RAMP_SIZE] (hw_ramp w2)"
  by (simp add: set_gamma_ramp_all_screens_eq ramp_loop_full)

section \<open>The constructor and the exit paths\<close>

lemma load_config_frame:
  "heap (snd (load_config w)) = heap w" "\<exists>ts. trace (snd (load_config w)) = trace w @ ts"
  "read_ok (snd (load_config w)) = read_ok w"
  by (simp_all add: load_config_def split: json_file.splits)

lemma apply_config_error:
  "fst (apply_config s) = None \<or> fst (apply_config s) = Some KeyError \<or> fst (apply_config s) = Some TypeError"
  by (simp add: apply_config_def config_getitem_def split: option.splits json.splits sum.splits)

lemma init_result:
  "\<exists>err s' w' hs ts. ScreenGammaGUI_init pw w = (err, s', w')
     \<and> (err = None \<or> err = Some KeyError \<or> err = Some TypeError)
     \<and> original_ramp s' = length (heap w)
     \<and> heap w' = heap w @ (if read_ok w then hw_ramp w else failed_read w GammaRamp_new) # hs
     \<and> trace w' = trace w @ GetRamp (length (heap w)) # CreateWindow # ts"
proof -
  define w2 where "w2 = (snd (get_gamma_ramp w))\<lparr>trace := trace (snd (get_gamma_ramp w)) @ [CreateWindow]\<rparr>"
  obtain cfg w3 where l: "load_config w2 = (cfg, w3)" by (cases "load_config w2")
  define s where "s = \<lparr>original_ramp = length (heap w), gamma_var = TkDouble 1, brightness_var = TkDouble 0,
               contrast_var = TkDouble 1, config = cfg, status = Some Ready\<rparr>"
  obtain err s1 where a: "apply_config s = (err, s1)" by (cases "apply_config s")
  have o: "original_ramp s1 = length (heap w)" using apply_config_original[of s] a by (simp add: s_def)
  have e: "err = None \<or> err = Some KeyError \<or> err = Some TypeError" using apply_config_error[of s] a by simp
  have h3: "heap w3 = heap w @ [if read_ok w then hw_ramp w else failed_read w GammaRamp_new]"
    using load_config_frame(1)[of w2] l by (simp add: w2_def get_gamma_ramp_eq)
  obtain t3 where t3: "trace w3 = trace w @ GetRamp (length (heap w)) # CreateWindow # t3"
    using load_config_frame(2)[of w2] l by (auto simp add: w2_def get_gamma_ramp_eq)
  have init: "ScreenGammaGUI_init pw w =
      (case err of Some e \<Rightarrow> (Some e, s1, w3)
       | None \<Rightarrow> (let (s2, w4) = update_gamma pw s1 w3 in (None, s2, w4)))"
    using l a by (simp add: ScreenGammaGUI_init_def get_gamma_ramp_eq w2_def s_def Let_def split: option.splits)
  show ?thesis
  proof (cases err)
    case (Some x)
    then show ?thesis using init e o h3 t3 by simp
  next
    case None
    obtain s2 w4 where u: "update_gamma pw s1 w3 = (s2, w4)" by (cases "update_gamma pw s1 w3")
    have "extends (s1, w3) (update_gamma pw s1 w3)" by (rule extends_update_gamma) simp
    then obtain hs ts where "original_ramp s2 = original_ramp s1" "heap w4 = heap w3 @ hs" "trace w4 = trace w3 @ ts"
      using u by (auto simp: extends_def)
    then show ?thesis using init None u o h3 t3 by simp
  qed
qed

lemma extends_run: "extends (s, w) (snd (run pw es s w))"
proof (cases "mainloop pw es s w")
  case (fields x s1 w1)
  have 1: "extends (s, w) (s1, w1)" using extends_mainloop[of s w pw es] fields by simp
  have 2: "extends (s1, w1) (s1, restore_gamma s1 w1)" by (rule extends_restore)
  have 3: "extends (s1, restore_gamma s1 w1) (s1, restore_gamma s1 (restore_gamma s1 w1))" by (rule extends_restore)
  show ?thesis
    using fields 1 extends_trans[OF 1 2] extends_trans[OF extends_trans[OF 1 2] 3]
    by (cases x) (simp_all add: run_def)
qed

lemma extends_process_exit: "extends (s, w) (s, process_exit s w)"
  by (simp add: process_exit_def backup_and_restore_restore_def atexit_restore_def restore_gamma_eq
      set_gamma_ramp_eq extends_def)

lemma extends_crash_handler: "extends (s, w) (s, crash_handler s w)"
  by (simp add: crash_handler_def extends_restore)

lemma main_trace:
  "\<exists>ts. trace (main pw es w) = trace (snd (snd (ScreenGammaGUI_init pw w))) @ ts"
proof (cases "ScreenGammaGUI_init pw w")
  case (fields err s w1)
  have c: "\<And>s w. extends (s, w) (s, process_exit s (crash_handler s w))"
    using extends_trans[OF extends_crash_handler extends_process_exit] by simp
  show ?thesis
  proof (cases err)
    case (Some e)
    then show ?thesis using fields c[of s w1] by (auto simp add: main_def extends_def)
  next
    case None
    obtain x s1 w2 where r: "run pw es s w1 = (x, s1, w2)" by (cases "run pw es s w1")
    have 1: "extends (s, w1) (s1, w2)" using extends_run[of s w1 pw es] r by simp
    have 2: "extends (s, w1) (s1, process_exit s1 w2)"
      using extends_trans[OF 1 extends_process_exit] .
    have 3: "extends (s, w1) (s1, process_exit s1 (crash_handler s1 w2))"
      using extends_trans[OF 1 c] .
    show ?thesis using fields None r 1 2 3 by (cases x) (auto simp add: main_def extends_def)
  qed
qed

lemma init_same_course:
  "fst (ScreenGammaGUI_init pw (w\<lparr>read_ok := r\<rparr>)) = fst (ScreenGammaGUI_init pw w)
   \<and> fst (snd (ScreenGammaGUI_init pw (w\<lparr>read_ok := r\<rparr>))) = fst (snd (ScreenGammaGUI_init pw w))
   \<and> trace (snd (snd (ScreenGammaGUI_init pw (w\<lparr>read_ok := r\<rparr>)))) = trace (snd (snd (ScreenGammaGUI_init pw w)))
   \<and> hw_ramp (snd (snd (ScreenGammaGUI_init pw (w\<lparr>read_ok := r\<rparr>)))) = hw_ramp (snd (snd (ScreenGammaGUI_init pw w)))"
  by (simp add: ScreenGammaGUI_init_def get_gamma_ramp_eq load_config_def update_gamma_def
      set_gamma_ramp_all_screens_eq Let_def
      split: json_file.splits prod.splits option.splits sum.splits)

lemma example_init:
  "ScreenGammaGUI_init example_pow example_world =
     (None, example_gui,
      example_world\<lparr>heap := [ramp_table example_pow 1 0 1, ramp_table example_pow 1 0 1],
        trace := [GetRamp 0, CreateWindow, GetRamp 1, SetRamp (ramp_table example_pow 1 0 1)]\<rparr>)"
  by (simp add: ScreenGammaGUI_init_def example_world_def example_gui_def get_gamma_ramp_eq load_config_def
      apply_config_def config_getitem_def default_config_def update_gamma_def DoubleVar_get_def
      set_gamma_ramp_all_screens_eq set_status_def)

lemma example_init_unreadable:
  "ScreenGammaGUI_init example_pow (example_world\<lparr>read_ok := False\<rparr>) =
     (None, example_gui,
      example_world\<lparr>read_ok := False, heap := [GammaRamp_new, ramp_table example_pow 1 0 1],
        trace := [GetRamp 0, CreateWindow, GetRamp 1, SetRamp (ramp_table example_pow 1 0 1)]\<rparr>)"
  by (simp add: ScreenGammaGUI_init_def example_world_def example_gui_def get_gamma_ramp_eq load_config_def
      apply_config_def config_getitem_def default_config_def update_gamma_def DoubleVar_get_def
      set_gamma_ramp_all_screens_eq set_status_def)

lemma linear_ramp_not_zero: "ramp_table example_pow 1 0 1 \<noteq> GammaRamp_new"
proof
  assume eq: "ramp_table example_pow 1 0 1 = GammaRamp_new"
  obtain v where v: "ramp_value example_pow 1 0 1 255 = Inr v" "v = 257 * int 255 \<or> v = 257 * int 255 - 1"
    using default_value_near[of 255 example_pow] by auto
  have "uint (ramp_entry example_pow 1 0 1 255) = v" using v by (auto simp add: ramp_entry_def uint_USHORT)
  moreover have "array_get (red (ramp_table example_pow 1 0 1)) 255 = ramp_entry example_pow 1 0 1 255"
    by (rule ramp_table_entries) simp
  moreover have "array_get (red GammaRamp_new) 255 = 0" by (simp add: GammaRamp_new_def array_get_new)
  ultimately show False using eq v(2) by auto
qed

lemma normal_quit_trace:
  "trace (main example_pow [QuitClicked] example_world) =
     [GetRamp 0, CreateWindow, GetRamp 1, SetRamp (ramp_table example_pow 1 0 1),
      WriteConfig (JObject [''gamma'' \<mapsto> TkDouble 1, ''brightness'' \<mapsto> TkDouble 0, ''contrast'' \<mapsto> TkDouble 1]),
      SetRamp (ramp_table example_pow 1 0 1), SetRamp (ramp_table example_pow 1 0 1),
      SetRamp (ramp_table example_pow 1 0 1), SetRamp (ramp_table example_pow 1 0 1)]"
  unfolding main_def example_init
  by (simp add: run_def quit_app_def save_to_config_def save_config_def
      DoubleVar_get_def set_status_def restore_gamma_eq process_exit_def atexit_restore_def
      backup_and_restore_restore_def set_gamma_ramp_eq example_gui_def example_world_def Let_def)

section \<open>The default ramp at index 1\<close>

text \<open>
  The double computation followed step by step: with the default parameters the entry at
  index 1 is 256, one below \<open>257\<close>, because \<^verbatim>\<open>1 / 255.0\<close> and the sum that undoes the
  subtraction of \<open>0.5\<close> round down and \<^verbatim>\<open>int\<close> truncates.
\<close>

lemma round_half_even_near:
  assumes "\<bar>x - of_int r\<bar> < 1 / 2" shows "round_half_even x = r"
proof (cases "of_int r \<le> x")
  case True
  then have "\<lfloor>x\<rfloor> = r" using assms by (intro floor_unique) linarith+
  then show ?thesis using assms True by (simp add: round_half_even_def)
next
  case False
  then have "\<lfloor>x\<rfloor> = r - 1" using assms by (intro floor_unique) (simp, linarith)+
  then show ?thesis using assms False by (simp add: round_half_even_def)
qed

lemma fl_eval:
  assumes "2 powr real_of_int e \<le> \<bar>x\<bar>" "\<bar>x\<bar> < 2 powr real_of_int (e + 1)" "- 1022 \<le> e"
    and "\<bar>x / 2 powr real_of_int (e - 52) - of_int r\<bar> < 1 / 2"
  shows "fl x = of_int r * 2 powr real_of_int (e - 52)"
proof -
  have e: "float_exponent x = e" using assms(1-3) by (rule float_exponent_eqI)
  have "x \<noteq> 0" using assms(1) by (smt (verit) powr_gt_zero abs_zero)
  moreover have "round_half_even (x / float_quantum x) = r"
    using assms(4) by (intro round_half_even_near) (simp add: float_quantum_def e)
  ultimately show ?thesis by (simp add: fl_def float_quantum_def e)
qed

lemma normalized_1: "fl (1 / 255) = 4521260802379792 / 2 ^ 60"
  using fl_eval[of "- 8" "1 / 255" 4521260802379792] by (simp add: powr_minus_divide)

lemma normalized_1_exact: "fl (4521260802379792 / 2 ^ 60) = 4521260802379792 / 2 ^ 60"
  using fl_exact[of "4521260802379792 / 2 ^ 60" 4521260802379792 "- 60"] by (simp add: powr_minus_divide)

lemma shifted_1: "fl (4521260802379792 / 2 ^ 60 - 1 / 2) = - (8936554554703808 / 2 ^ 54)"
  using fl_eval[of "- 2" "4521260802379792 / 2 ^ 60 - 1 / 2" "- 8936554554703808"]
  by (simp add: powr_minus_divide)

lemma shifted_1_exact: "fl (- (8936554554703808 / 2 ^ 54)) = - (8936554554703808 / 2 ^ 54)"
  using fl_exact[of "- (8936554554703808 / 2 ^ 54)" "- 8936554554703808" "- 54"] by (simp add: powr_minus_divide)

lemma unshifted_1: "fl (- (8936554554703808 / 2 ^ 54) + 1 / 2) = 70644700037184 / 2 ^ 54"
  using fl_exact[of "70644700037184 / 2 ^ 54" 70644700037184 "- 54"] by (simp add: powr_minus_divide)

lemma scaled_1: "fl (70644700037184 / 2 ^ 54 * 65535) = 4521191813414896 / 2 ^ 44"
  using fl_eval[of 8 "70644700037184 / 2 ^ 54 * 65535" 4521191813414896] by (simp add: powr_minus_divide)

lemma default_entry_1: "ramp_value pw 1 0 1 1 = Inr 256"
proof -
  define N :: real where "N = 4521260802379792 / 2 ^ 60"
  define D :: real where "D = - (8936554554703808 / 2 ^ 54)"
  define A :: real where "A = 70644700037184 / 2 ^ 54"
  have N: "fl (1 / 255) = N" "fl N = N" unfolding N_def by (rule normalized_1, rule normalized_1_exact)
  have N01: "0 \<le> N" "N \<le> 1" unfolding N_def by simp_all
  have D: "fl (N - 1 / 2) = D" "fl D = D" unfolding N_def D_def by (rule shifted_1, rule shifted_1_exact)
  have A: "fl (D + 1 / 2) = A" unfolding D_def A_def by (rule unshifted_1)
  have A01: "0 \<le> A" "A \<le> 1" unfolding A_def by simp_all
  have W: "fl (A * 65535) = 4521191813414896 / 2 ^ 44" unfolding A_def by (rule scaled_1)
  have g: "gamma_corrected_of pw 1 1 = N"
    using N N01 by (simp add: gamma_corrected_of_def ramp_exponent_default)
  have f: "final_of N 0 1 = A"
    using N N01 D A A01 by (simp add: final_of_def fl_0)
  have "\<lfloor>4521191813414896 / 2 ^ 44 :: real\<rfloor> = 256" by simp
  then show ?thesis by (simp only: ramp_value_eq g f W)
qed

section \<open>Properties of the session\<close>

text \<open>
  C1, as stated, fails. \<^verbatim>\<open>_restore_gamma\<close> keeps no record of having run: in the example
  world, a second call right after the first one writes the original ramp to the driver
  once more.
\<close>

theorem restore_twice_counterexample:
  "trace (restore_gamma (fst (snd (ScreenGammaGUI_init example_pow example_world)))
            (restore_gamma (fst (snd (ScreenGammaGUI_init example_pow example_world)))
               (snd (snd (ScreenGammaGUI_init example_pow example_world)))))
     = trace (restore_gamma (fst (snd (ScreenGammaGUI_init example_pow example_world)))
               (snd (snd (ScreenGammaGUI_init example_pow example_world))))
       @ [SetRamp (hw_ramp example_world)]"
  unfolding example_init by (simp add: restore_gamma_eq example_gui_def example_world_def)

text \<open>
  C1, amended. \<^verbatim>\<open>_restore_gamma\<close> is idempotent in its effect on the display, not in its
  driver calls: two calls in a row make two writes of the stored original ramp, and the
  hardware ramp after the second call is the one after the first.
\<close>

theorem restore_writes_every_time:
  "trace (restore_gamma s (restore_gamma s w))
     = trace w @ [SetRamp (heap w ! original_ramp s), SetRamp (heap w ! original_ramp s)]
   \<and> hw_ramp (restore_gamma s (restore_gamma s w)) = hw_ramp (restore_gamma s w)
   \<and> heap (restore_gamma s (restore_gamma s w)) = heap w"
  by (simp add: restore_gamma_eq)

text \<open>
  C6, as stated, fails. In the example world with a failing \<^verbatim>\<open>GetDeviceGammaRamp\<close> (one
  that leaves the caller's buffer alone), the constructor returns without an exception,
  the window has been created, and the ramp kept as the original is the zero-initialised
  buffer, which is not the hardware ramp.
\<close>

theorem failed_read_counterexample:
  "\<not> read_ok (example_world\<lparr>read_ok := False\<rparr>)
   \<and> fst (ScreenGammaGUI_init example_pow (example_world\<lparr>read_ok := False\<rparr>)) = None
   \<and> CreateWindow \<in> set (trace (snd (snd (ScreenGammaGUI_init example_pow (example_world\<lparr>read_ok := False\<rparr>)))))
   \<and> heap (snd (snd (ScreenGammaGUI_init example_pow (example_world\<lparr>read_ok := False\<rparr>))))
        ! original_ramp (fst (snd (ScreenGammaGUI_init example_pow (example_world\<lparr>read_ok := False\<rparr>))))
      = GammaRamp_new
   \<and> hw_ramp (example_world\<lparr>read_ok := False\<rparr>) \<noteq> GammaRamp_new"
  using linear_ramp_not_zero
  by (simp add: example_init_unreadable example_gui_def) (simp add: example_world_def)

text \<open>
  C6, amended. When the initial read fails, nothing notices: \<^verbatim>\<open>get_gamma_ramp\<close> drops the
  result of \<^verbatim>\<open>GetDeviceGammaRamp\<close>, and the constructor takes the same course as when the read
  succeeds: the same result (no exception, or the exception that the configuration raises
  either way), the same GUI object, the same calls in the same order, among them the
  creation of the window, and the same hardware ramp afterwards. The ramp it keeps as the
  original is its own zero-initialised buffer as the failed call left it.
\<close>

theorem failed_read_is_not_noticed:
  assumes "\<not> read_ok w"
  shows "\<exists>err s' w1 w2 ts. ScreenGammaGUI_init pw w = (err, s', w1)
     \<and> ScreenGammaGUI_init pw (w\<lparr>read_ok := True\<rparr>) = (err, s', w2)
     \<and> trace w1 = trace w2
     \<and> hw_ramp w1 = hw_ramp w2
     \<and> trace w1 = trace w @ GetRamp (original_ramp s') # CreateWindow # ts
     \<and> heap w1 ! original_ramp s' = failed_read w GammaRamp_new"
proof -
  obtain err s' w1 hs ts where i: "ScreenGammaGUI_init pw w = (err, s', w1)"
      "original_ramp s' = length (heap w)"
      "heap w1 = heap w @ (if read_ok w then hw_ramp w else failed_read w GammaRamp_new) # hs"
      "trace w1 = trace w @ GetRamp (length (heap w)) # CreateWindow # ts"
    using init_result[of pw w] by blast
  have h: "heap w1 ! original_ramp s' = failed_read w GammaRamp_new" using i(2,3) assms by (simp add: nth_append)
  obtain w2 where j: "ScreenGammaGUI_init pw (w\<lparr>read_ok := True\<rparr>) = (err, s', w2)"
      "trace w2 = trace w1" "hw_ramp w2 = hw_ramp w1"
    using init_same_course[of pw True w] i(1) by (cases "ScreenGammaGUI_init pw (w\<lparr>read_ok := True\<rparr>)") auto
  show ?thesis using i h j by simp
qed

theorem failed_read_is_not_noticed_witness:
  "\<not> read_ok (example_world\<lparr>read_ok := False\<rparr>)
   \<and> (\<exists>err s' w1 w2 ts.
         ScreenGammaGUI_init example_pow (example_world\<lparr>read_ok := False\<rparr>) = (err, s', w1)
       \<and> ScreenGammaGUI_init example_pow (example_world\<lparr>read_ok := False, read_ok := True\<rparr>) = (err, s', w2)
       \<and> trace w1 = trace w2
       \<and> hw_ramp w1 = hw_ramp w2
       \<and> trace w1 = trace (example_world\<lparr>read_ok := False\<rparr>) @ GetRamp (original_ramp s') # CreateWindow # ts
       \<and> heap w1 ! original_ramp s' = failed_read (example_world\<lparr>read_ok := False\<rparr>) GammaRamp_new)"
proof -
  have h: "\<not> read_ok (example_world\<lparr>read_ok := False\<rparr>)" by simp
  show ?thesis using h failed_read_is_not_noticed[OF h, of example_pow] by blast
qed

text \<open>
  C7, as stated, fails. Nothing rejects a write that comes before a capture: in the
  example world, where no ramp object exists yet, \<^verbatim>\<open>set_gamma_ramp_all_screens\<close> succeeds
  and writes its table, and so does \<^verbatim>\<open>update_gamma\<close>. And in the program's own run in the
  example world with a failing \<^verbatim>\<open>GetDeviceGammaRamp\<close>, the table of the default parameters is
  written although what is kept as the original is the zero-initialised buffer, not the
  hardware ramp.
\<close>

theorem write_without_capture_counterexample:
  "heap example_world = []
   \<and> fst (set_gamma_ramp_all_screens example_pow 1 0 1 example_world) = Inr True
   \<and> trace (snd (set_gamma_ramp_all_screens example_pow 1 0 1 example_world))
       = [GetRamp 0, SetRamp (ramp_table example_pow 1 0 1)]
   \<and> trace (snd (update_gamma example_pow example_gui example_world))
       = [GetRamp 0, SetRamp (ramp_table example_pow 1 0 1)]
   \<and> \<not> read_ok (example_world\<lparr>read_ok := False\<rparr>)
   \<and> SetRamp (ramp_table example_pow 1 0 1)
       \<in> set (trace (main example_pow [] (example_world\<lparr>read_ok := False\<rparr>)))
   \<and> heap (snd (snd (ScreenGammaGUI_init example_pow (example_world\<lparr>read_ok := False\<rparr>))))
        ! original_ramp (fst (snd (ScreenGammaGUI_init example_pow (example_world\<lparr>read_ok := False\<rparr>))))
      = GammaRamp_new
   \<and> hw_ramp (example_world\<lparr>read_ok := False\<rparr>) \<noteq> GammaRamp_new"
proof -
  have "trace (main example_pow [] (example_world\<lparr>read_ok := False\<rparr>))
      = [GetRamp 0, CreateWindow, GetRamp 1, SetRamp (ramp_table example_pow 1 0 1)]"
    unfolding main_def example_init_unreadable by (simp add: run_def example_world_def)
  moreover have "hw_ramp (example_world\<lparr>read_ok := False\<rparr>) \<noteq> GammaRamp_new"
    using linear_ramp_not_zero by (simp add: example_world_def)
  moreover have "trace (snd (update_gamma example_pow example_gui example_world))
       = [GetRamp 0, SetRamp (ramp_table example_pow 1 0 1)]"
    by (simp add: update_gamma_def DoubleVar_get_def example_gui_def set_gamma_ramp_all_screens_eq
        set_status_def example_world_def)
  moreover have "fst (set_gamma_ramp_all_screens example_pow 1 0 1 example_world) = Inr True"
      "trace (snd (set_gamma_ramp_all_screens example_pow 1 0 1 example_world))
         = [GetRamp 0, SetRamp (ramp_table example_pow 1 0 1)]"
      "heap example_world = []"
    by (simp_all add: set_gamma_ramp_all_screens_eq example_world_def)
  ultimately show ?thesis by (simp add: example_init_unreadable example_gui_def)
qed

text \<open>
  C7, amended. No guard rejects a write before a capture: \<^verbatim>\<open>set_gamma_ramp_all_screens\<close>,
  which is all that \<^verbatim>\<open>update_gamma\<close> calls, reads into a fresh object and writes its table
  in any world. What holds is an order in the program's own executions: for any events and
  any world, the first call to the driver is the constructor's read into the object the GUI
  keeps as the original, so every write comes after that read; and the object then holds
  the hardware ramp when the read succeeded, and what the failed call left in the buffer
  when it did not.
\<close>

theorem capture_read_precedes_every_write:
  "\<exists>err s0 w0 rest. ScreenGammaGUI_init pw w = (err, s0, w0)
     \<and> trace (main pw es w) = trace w @ GetRamp (original_ramp s0) # rest
     \<and> heap w0 ! original_ramp s0 = (if read_ok w then hw_ramp w else failed_read w GammaRamp_new)
     \<and> fst (set_gamma_ramp_all_screens pw gamma brightness contrast w')
         = Inr (write_ok w' (ramp_table pw gamma brightness contrast))
     \<and> trace (snd (set_gamma_ramp_all_screens pw gamma brightness contrast w'))
         = trace w' @ [GetRamp (length (heap w')), SetRamp (ramp_table pw gamma brightness contrast)]"
proof -
  obtain err s0 w0 hs ts where i: "ScreenGammaGUI_init pw w = (err, s0, w0)"
      "original_ramp s0 = length (heap w)"
      "heap w0 = heap w @ (if read_ok w then hw_ramp w else failed_read w GammaRamp_new) # hs"
      "trace w0 = trace w @ GetRamp (length (heap w)) # CreateWindow # ts"
    using init_result[of pw w] by blast
  obtain us where "trace (main pw es w) = trace w0 @ us" using main_trace[of pw es w] i(1) by auto
  then show ?thesis using i by (simp add: nth_append set_gamma_ramp_all_screens_eq)
qed

text \<open>
  C8. After \<^verbatim>\<open>__init__\<close> has captured the original ramp, whatever the user does in the main
  loop (every slider move, button and menu entry, each of which may call \<^verbatim>\<open>update_gamma\<close>),
  the GUI refers to the same ramp object and the object holds what was captured;
  \<^verbatim>\<open>update_gamma\<close> fills and writes a fresh object, and \<^verbatim>\<open>_restore_gamma\<close> writes the
  captured ramp back.
\<close>

theorem original_is_never_mutated:
  "\<exists>err s0 w0 x s1 w1. ScreenGammaGUI_init pw w = (err, s0, w0)
     \<and> mainloop pw es s0 w0 = (x, s1, w1)
     \<and> original_ramp s1 = original_ramp s0
     \<and> heap w1 ! original_ramp s0 = heap w0 ! original_ramp s0
     \<and> heap w0 ! original_ramp s0 = (if read_ok w then hw_ramp w else failed_read w GammaRamp_new)
     \<and> trace (restore_gamma s1 w1)
         = trace w1 @ [SetRamp (if read_ok w then hw_ramp w else failed_read w GammaRamp_new)]"
proof -
  obtain err s0 w0 hs ts where i: "ScreenGammaGUI_init pw w = (err, s0, w0)"
      "original_ramp s0 = length (heap w)"
      "heap w0 = heap w @ (if read_ok w then hw_ramp w else failed_read w GammaRamp_new) # hs"
    using init_result[of pw w] by blast
  obtain x s1 w1 where m: "mainloop pw es s0 w0 = (x, s1, w1)" by (cases "mainloop pw es s0 w0")
  have "extends (s0, w0) (s1, w1)" using extends_mainloop[of s0 w0 pw es] m by simp
  then obtain hs' where "original_ramp s1 = original_ramp s0" "heap w1 = heap w0 @ hs'"
    by (auto simp: extends_def)
  then show ?thesis using i m by (simp add: nth_append restore_gamma_eq)
qed

text \<open>
  C10. When the three Tk variables hold doubles, \<^verbatim>\<open>quit_app\<close> raises nothing, makes the
  current values the configuration and writes it to the file (or shows an error box when
  the file cannot be written), and only then writes the original ramp to the driver; the
  main loop ends.
\<close>

theorem quit_saves_then_restores:
  assumes "gamma_var s = TkDouble g" "brightness_var s = TkDouble b" "contrast_var s = TkDouble c"
  shows "\<exists>s' w'. quit_app s w = (None, s', w')
     \<and> config s' = JObject [''gamma'' \<mapsto> TkDouble g, ''brightness'' \<mapsto> TkDouble b, ''contrast'' \<mapsto> TkDouble c]
     \<and> trace w' = trace w @ [if file_writable w then WriteConfig (config s') else ShowError,
                              SetRamp (heap w ! original_ramp s)]
     \<and> config_file w' = (if file_writable w then Parsed (config s') else config_file w)
     \<and> mainloop pw (QuitClicked # es) s w = (Returned, s', w')"
  using assms
  by (simp add: quit_app_def save_to_config_def save_config_def DoubleVar_get_def set_status_def
      restore_gamma_eq Let_def split: option.splits)

theorem quit_saves_then_restores_witness:
  "gamma_var example_gui = TkDouble 1 \<and> brightness_var example_gui = TkDouble 0
   \<and> contrast_var example_gui = TkDouble 1
   \<and> (\<exists>s' w'. quit_app example_gui (snd (snd (ScreenGammaGUI_init example_pow example_world))) = (None, s', w')
     \<and> config s' = JObject [''gamma'' \<mapsto> TkDouble 1, ''brightness'' \<mapsto> TkDouble 0, ''contrast'' \<mapsto> TkDouble 1]
     \<and> trace w' = [GetRamp 0, CreateWindow, GetRamp 1, SetRamp (ramp_table example_pow 1 0 1),
                   WriteConfig (config s'), SetRamp (ramp_table example_pow 1 0 1)]
     \<and> config_file w' = Parsed (config s')
     \<and> mainloop example_pow [QuitClicked] example_gui (snd (snd (ScreenGammaGUI_init example_pow example_world))) = (Returned, s', w'))"
proof -
  have h: "gamma_var example_gui = TkDouble 1" "brightness_var example_gui = TkDouble 0"
      "contrast_var example_gui = TkDouble 1"
    by (simp_all add: example_gui_def)
  show ?thesis
    using h quit_saves_then_restores[OF h, of "snd (snd (ScreenGammaGUI_init example_pow example_world))" example_pow "[]"]
    unfolding example_init by (simp add: example_world_def example_gui_def)
qed

end
